theory Spec2Isabelle
  imports Main "HOL-Library.Sublist"
begin

section \<open>Shim resolution (src/lib/shims.ts)\<close>

text \<open>
  \<^verbatim>\<open>GlobalName\<close> and \<^verbatim>\<open>Shim\<close> are imported from \<^verbatim>\<open>transform.ts\<close>; their shape is read
  off the literals of \<^verbatim>\<open>shims.ts\<close>: a global name is a string or an object
  \<^verbatim>\<open>{ name, typeOnly }\<close>, a shim is a package reference (the version is optional, see
  \<^verbatim>\<open>getBlobShim\<close>) with its global names.
\<close>

datatype GlobalName = GlobalNameString string | GlobalNameObject string bool

record PackageRef =
  package_name :: string
  package_version :: "string option"

record Shim =
  package :: PackageRef
  globalNames :: "GlobalName list"

text \<open>\<^verbatim>\<open>type ShimValue = boolean | "dev"\<close>\<close>

datatype ShimValue = Bool bool | Dev

text \<open>The \<^verbatim>\<open>deno\<close> option: \<^verbatim>\<open>ShimValue | { test: ShimValue }\<close>.\<close>

datatype DenoOption = DenoValue ShimValue | DenoObject ShimValue

text \<open>Every field of \<^verbatim>\<open>ShimOptions\<close> is optional: \<open>None\<close> is an absent field.\<close>

record ShimOptions =
  deno :: "DenoOption option"
  timers :: "ShimValue option"
  prompts :: "ShimValue option"
  blob :: "ShimValue option"
  crypto :: "ShimValue option"
  undici :: "ShimValue option"
  custom :: "Shim list option"
  customDev :: "Shim list option"

definition typeOnly :: "string \<Rightarrow> GlobalName" where
  "typeOnly n = GlobalNameObject n True"

definition getDenoShim :: Shim where
  "getDenoShim =
     \<lparr>package = \<lparr>package_name = ''@deno/shim-deno'', package_version = Some ''~0.1.1''\<rparr>,
      globalNames = [GlobalNameString ''Deno'']\<rparr>"

definition getDenoTestShim :: Shim where
  "getDenoTestShim =
     \<lparr>package = \<lparr>package_name = ''@deno/shim-deno-test'', package_version = Some ''~0.2.0''\<rparr>,
      globalNames = [GlobalNameString ''Deno'']\<rparr>"

definition getCryptoShim :: Shim where
  "getCryptoShim =
     \<lparr>package = \<lparr>package_name = ''@deno/shim-crypto'', package_version = Some ''~0.2.0''\<rparr>,
      globalNames =
        [GlobalNameString ''crypto'',
         typeOnly ''Crypto'',
         typeOnly ''SubtleCrypto'',
         typeOnly ''AlgorithmIdentifier'',
         typeOnly ''Algorithm'',
         typeOnly ''RsaOaepParams'',
         typeOnly ''BufferSource'',
         typeOnly ''AesCtrParams'',
         typeOnly ''AesCbcParams'',
         typeOnly ''AesGcmParams'',
         typeOnly ''CryptoKey'',
         typeOnly ''KeyAlgorithm'',
         typeOnly ''KeyType'',
         typeOnly ''KeyUsage'',
         typeOnly ''EcdhKeyDeriveParams'',
         typeOnly ''HkdfParams'',
         typeOnly ''HashAlgorithmIdentifier'',
         typeOnly ''Pbkdf2Params'',
         typeOnly ''AesDerivedKeyParams'',
         typeOnly ''HmacImportParams'',
         typeOnly ''JsonWebKey'',
         typeOnly ''RsaOtherPrimesInfo'',
         typeOnly ''KeyFormat'',
         typeOnly ''RsaHashedKeyGenParams'',
         typeOnly ''RsaKeyGenParams'',
         typeOnly ''BigInteger'',
         typeOnly ''EcKeyGenParams'',
         typeOnly ''NamedCurve'',
         typeOnly ''CryptoKeyPair'',
         typeOnly ''AesKeyGenParams'',
         typeOnly ''HmacKeyGenParams'',
         typeOnly ''RsaHashedImportParams'',
         typeOnly ''EcKeyImportParams'',
         typeOnly ''AesKeyAlgorithm'',
         typeOnly ''RsaPssParams'',
         typeOnly ''EcdsaParams'']\<rparr>"

definition getBlobShim :: Shim where
  "getBlobShim =
     \<lparr>package = \<lparr>package_name = ''buffer'', package_version = None\<rparr>,
      globalNames = [GlobalNameString ''Blob'']\<rparr>"

definition getPromptsShim :: Shim where
  "getPromptsShim =
     \<lparr>package = \<lparr>package_name = ''@deno/shim-prompts'', package_version = Some ''~0.1.0''\<rparr>,
      globalNames =
        [GlobalNameString ''alert'', GlobalNameString ''confirm'', GlobalNameString ''prompt'']\<rparr>"

definition getTimersShim :: Shim where
  "getTimersShim =
     \<lparr>package = \<lparr>package_name = ''@deno/shim-timers'', package_version = Some ''~0.1.0''\<rparr>,
      globalNames = [GlobalNameString ''setInterval'', GlobalNameString ''setTimeout'']\<rparr>"

definition getUndiciShim :: Shim where
  "getUndiciShim =
     \<lparr>package = \<lparr>package_name = ''undici'', package_version = Some ''^4.12.1''\<rparr>,
      globalNames =
        [GlobalNameString ''fetch'', GlobalNameString ''File'', GlobalNameString ''FormData'',
         GlobalNameString ''Headers'', GlobalNameString ''Request'',
         GlobalNameString ''Response'']\<rparr>"

text \<open>
  The two arrays that \<^verbatim>\<open>shimOptionsToTransformShims\<close> fills and returns. The inner
  function \<^verbatim>\<open>add\<close> pushes onto both through its closure; here the pair is passed
  and returned.
\<close>

record TransformShims =
  shims :: "Shim list"
  testShims :: "Shim list"

definition add :: "ShimValue option \<Rightarrow> Shim \<Rightarrow> TransformShims \<Rightarrow> TransformShims" where
  "add option getShim r =
     (if option = Some (Bool True) then
        r\<lparr>shims := shims r @ [getShim], testShims := testShims r @ [getShim]\<rparr>
      else if option = Some Dev then
        r\<lparr>testShims := testShims r @ [getShim]\<rparr>
      else r)"

text \<open>
  \<^verbatim>\<open>if (options.custom) { shims.push(...options.custom); testShims.push(...options.custom); }\<close>:
  an array, also an empty one, is truthy; an absent field is not.
\<close>

definition addCustom :: "Shim list option \<Rightarrow> TransformShims \<Rightarrow> TransformShims" where
  "addCustom c r =
     (case c of
        None \<Rightarrow> r
      | Some cs \<Rightarrow> r\<lparr>shims := shims r @ cs, testShims := testShims r @ cs\<rparr>)"

definition addCustomDev :: "Shim list option \<Rightarrow> TransformShims \<Rightarrow> TransformShims" where
  "addCustomDev c r =
     (case c of
        None \<Rightarrow> r
      | Some cs \<Rightarrow> r\<lparr>testShims := testShims r @ cs\<rparr>)"

text \<open>
  \<^verbatim>\<open>typeof options.deno === "object"\<close> selects the object form; every other value of
  the field, the absent one too, goes to the \<^verbatim>\<open>else\<close> branch.
\<close>

definition addDeno :: "DenoOption option \<Rightarrow> TransformShims \<Rightarrow> TransformShims" where
  "addDeno d r =
     (case d of
        Some (DenoObject t) \<Rightarrow> add (Some t) getDenoTestShim r
      | Some (DenoValue v) \<Rightarrow> add (Some v) getDenoShim r
      | None \<Rightarrow> add None getDenoShim r)"

definition shimOptionsToTransformShims :: "ShimOptions \<Rightarrow> TransformShims" where
  "shimOptionsToTransformShims options =
     addCustomDev (customDev options)
       (addCustom (custom options)
         (add (undici options) getUndiciShim
           (add (timers options) getTimersShim
             (add (prompts options) getPromptsShim
               (add (crypto options) getCryptoShim
                 (add (blob options) getBlobShim
                   (addDeno (deno options)
                     \<lparr>shims = [], testShims = []\<rparr>)))))))"


subsection \<open>Vocabulary for the claims about shim resolution\<close>

text \<open>
  The six capabilities of \<^verbatim>\<open>ShimOptions\<close>, the descriptor that the source passes to
  \<^verbatim>\<open>add\<close> for each (for \<^verbatim>\<open>deno\<close> the full-namespace one), and the option
  the configuration gives for it. The options of the five plain capabilities are
  embedded into \<open>DenoOption\<close> so that all six read alike.
\<close>

datatype Capability = CapDeno | CapBlob | CapCrypto | CapPrompts | CapTimers | CapUndici

fun descriptor :: "Capability \<Rightarrow> Shim" where
  "descriptor CapDeno = getDenoShim"
| "descriptor CapBlob = getBlobShim"
| "descriptor CapCrypto = getCryptoShim"
| "descriptor CapPrompts = getPromptsShim"
| "descriptor CapTimers = getTimersShim"
| "descriptor CapUndici = getUndiciShim"

fun capabilityOption :: "ShimOptions \<Rightarrow> Capability \<Rightarrow> DenoOption option" where
  "capabilityOption options CapDeno = deno options"
| "capabilityOption options CapBlob = map_option DenoValue (blob options)"
| "capabilityOption options CapCrypto = map_option DenoValue (crypto options)"
| "capabilityOption options CapPrompts = map_option DenoValue (prompts options)"
| "capabilityOption options CapTimers = map_option DenoValue (timers options)"
| "capabilityOption options CapUndici = map_option DenoValue (undici options)"

text \<open>The shims of an optional \<^verbatim>\<open>custom\<close> or \<^verbatim>\<open>customDev\<close> array: none when absent.\<close>

definition suppliedShims :: "Shim list option \<Rightarrow> Shim list" where
  "suppliedShims c = (case c of None \<Rightarrow> [] | Some cs \<Rightarrow> cs)"

text \<open>What one call of \<^verbatim>\<open>add\<close> appends to each of the two arrays.\<close>

definition distPart :: "ShimValue option \<Rightarrow> Shim \<Rightarrow> Shim list" where
  "distPart option s = (if option = Some (Bool True) then [s] else [])"

definition testPart :: "ShimValue option \<Rightarrow> Shim \<Rightarrow> Shim list" where
  "testPart option s = (if option = Some (Bool True) \<or> option = Some Dev then [s] else [])"

text \<open>The descriptor and the option that the \<^verbatim>\<open>deno\<close> branch hands to \<^verbatim>\<open>add\<close>.\<close>

definition denoDescriptor :: "DenoOption option \<Rightarrow> Shim" where
  "denoDescriptor d = (case d of Some (DenoObject t) \<Rightarrow> getDenoTestShim | _ \<Rightarrow> getDenoShim)"

definition denoValue :: "DenoOption option \<Rightarrow> ShimValue option" where
  "denoValue d =
     (case d of Some (DenoObject t) \<Rightarrow> Some t | Some (DenoValue v) \<Rightarrow> Some v | None \<Rightarrow> None)"

text \<open>A configuration with every field absent, to build examples from.\<close>

definition noShims :: ShimOptions where
  "noShims =
     \<lparr>deno = None, timers = None, prompts = None, blob = None, crypto = None, undici = None,
      custom = None, customDev = None\<rparr>"


section \<open>The generated test harness (\<^verbatim>\<open>getRunTestDefinitionsCode\<close>, \<^verbatim>\<open>createTestLauncherScript\<close>)\<close>

text \<open>
  The harness is JavaScript that the build writes into \<^verbatim>\<open>test_runner.js\<close>. What is
  embedded here is the behaviour of that script: the functions \<^verbatim>\<open>indentText\<close>,
  \<^verbatim>\<open>getTestContext\<close> (with its members \<^verbatim>\<open>hasFailingChild\<close>, \<^verbatim>\<open>getOutput\<close> and
  \<^verbatim>\<open>step\<close>), \<^verbatim>\<open>runTestDefinitions\<close> and \<^verbatim>\<open>main\<close>.
\<close>

subsection \<open>Values, contexts and test bodies\<close>

text \<open>
  The JavaScript values a test body can throw: \<^verbatim>\<open>undefined\<close>, \<^verbatim>\<open>null\<close>, a boolean,
  a string, or an error object with its \<^verbatim>\<open>name\<close> and \<^verbatim>\<open>message\<close>.
\<close>

datatype jsvalue = JsUndefined | JsNull | JsBoolean bool | JsString string | JsError string string

text \<open>JavaScript truthiness, as \<^verbatim>\<open>if (this.err)\<close> and \<^verbatim>\<open>if (this.name)\<close> test it.\<close>

fun truthy :: "jsvalue \<Rightarrow> bool" where
  "truthy JsUndefined = False"
| "truthy JsNull = False"
| "truthy (JsBoolean b) = b"
| "truthy (JsString s) = (s \<noteq> [])"
| "truthy (JsError n m) = True"

text \<open>
  \<^verbatim>\<open>value.toString()\<close> for the values that have the method; for an error object it
  is \<^verbatim>\<open>Error.prototype.toString\<close>. It is never called on \<^verbatim>\<open>undefined\<close> or
  \<^verbatim>\<open>null\<close>: both callers test for them first.
\<close>

fun toString :: "jsvalue \<Rightarrow> string" where
  "toString (JsBoolean b) = (if b then ''true'' else ''false'')"
| "toString (JsString s) = s"
| "toString (JsError n m) = (if n = [] then m else if m = [] then n else n @ '': '' @ m)"
| "toString JsUndefined = ''undefined''"
| "toString JsNull = ''null''"

text \<open>\<^verbatim>\<open>lines.join(sep)\<close>\<close>

fun join :: "string \<Rightarrow> string list \<Rightarrow> string" where
  "join sep [] = []"
| "join sep [l] = l"
| "join sep (l # ls) = l @ sep @ join sep ls"

text \<open>\<^verbatim>\<open>text.split(/\r?\n/)\<close>: a line feed, or a carriage return with its line feed,
  ends a line; a carriage return alone does not.\<close>

fun splitLines :: "string \<Rightarrow> string list" where
  "splitLines [] = [[]]"
| "splitLines (c # cs) =
     (if c = CHR 0x0A then [] # splitLines cs
      else if c = CHR 0x0D \<and> cs \<noteq> [] \<and> hd cs = CHR 0x0A then [] # splitLines (tl cs)
      else (case splitLines cs of
              [] \<Rightarrow> [[c]]
            | l # ls \<Rightarrow> (c # l) # ls))"

text \<open>
  \<^verbatim>\<open>
  function indentText(text, indentLevel) {
    if (text === undefined) { text = "[undefined]"; }
    else if (text === null) { text = "[null]"; }
    else { text = text.toString(); }
    return text.split(/\r?\n/).map(line => "  ".repeat(indentLevel) + line).join("\n");
  }
  \<close>
\<close>

definition indentText :: "jsvalue \<Rightarrow> nat \<Rightarrow> string" where
  "indentText text indentLevel =
     (let text' =
        (if text = JsUndefined then ''[undefined]''
         else if text = JsNull then ''[null]''
         else toString text)
      in join [CHR 0x0A]
           (map (\<lambda>line. concat (replicate indentLevel ''  '') @ line) (splitLines text')))"

text \<open>The four strings that the harness stores in \<^verbatim>\<open>context.status\<close>.\<close>

datatype status = Ok | Pending | Fail | Ignored

fun statusString :: "status \<Rightarrow> string" where
  "statusString Ok = ''ok''"
| "statusString Pending = ''pending''"
| "statusString Fail = ''fail''"
| "statusString Ignored = ''ignored''"

text \<open>
  The object \<^verbatim>\<open>getTestContext()\<close> returns. \<^verbatim>\<open>err\<close> is \<^verbatim>\<open>undefined\<close> until the
  \<^verbatim>\<open>catch\<close> of \<^verbatim>\<open>step\<close> assigns it. The children are owned by their parent.
\<close>

datatype TestContext =
  Context (name: jsvalue) (status: status) (err: jsvalue) (children: "TestContext list")

definition getTestContext :: TestContext where
  "getTestContext = Context JsUndefined Ok JsUndefined []"

text \<open>\<^verbatim>\<open>this.children.some(c => c.status === "fail" || c.status === "pending")\<close>\<close>

definition hasFailingChild :: "TestContext \<Rightarrow> bool" where
  "hasFailingChild c = list_ex (\<lambda>c. status c = Fail \<or> status c = Pending) (children c)"

text \<open>
  \<^verbatim>\<open>
  getOutput() {
    let output = "";
    if (this.name) { output += this.name + " ..."; }
    if (this.children.length > 0) {
      output += "\n" + this.children.map(c => indentText(c.getOutput(), 1)).join("\n") + "\n";
    } else if (!this.err) { output += " "; }
    if (this.name && this.err) { output += "\n"; }
    if (this.err) {
      output += indentText(this.err.toString(), 1);
      if (this.name) { output += "\n"; }
    }
    if (this.name) { output += this.status; }
    return output;
  }
  \<close>
\<close>

fun getOutput :: "TestContext \<Rightarrow> string" where
  "getOutput (Context n s e cs) =
     (let output = [];
          output = (if truthy n then output @ toString n @ '' ...'' else output);
          output =
            (if length cs > 0 then
               output @ [CHR 0x0A] @
               join [CHR 0x0A] (map (\<lambda>c. indentText (JsString (getOutput c)) 1) cs) @ [CHR 0x0A]
             else if \<not> truthy e then output @ '' ''
             else output);
          output = (if truthy n \<and> truthy e then output @ [CHR 0x0A] else output);
          output =
            (if truthy e then
               (let output = output @ indentText (JsString (toString e)) 1
                in if truthy n then output @ [CHR 0x0A] else output)
             else output);
          output = (if truthy n then output @ statusString s else output)
      in output)"

text \<open>
  A test definition \<^verbatim>\<open>{ name, ignored, fn }\<close> and the body of its \<^verbatim>\<open>fn\<close>. A body
  is the sequence of the things it does that the harness can observe:
  \<^item> \<open>AwaitStep\<close>: \<^verbatim>\<open>await t.step(...)\<close>, the result dropped;
  \<^item> \<open>StartStep\<close>: \<^verbatim>\<open>t.step(...)\<close> with no \<^verbatim>\<open>await\<close>, for a step whose function
    suspends at once and has not resumed when the body that started it completes
    (the step that "is started and its containing test returns before it settles");
    when \<^verbatim>\<open>getDefinition\<close> refuses the arguments, the promise of the step is
    rejected at once, and nobody handles the rejection;
  \<^item> \<open>Throw\<close>: \<^verbatim>\<open>throw v\<close>, uncaught.
  The arguments of \<^verbatim>\<open>step\<close> are a name with a function, a name with something that
  is no function, a definition object, or anything else.
\<close>

datatype stmt = AwaitStep stepArgs | StartStep stepArgs | Throw jsvalue
  and stepArgs =
    NameAndFn string "stmt list" | NameOnly string | DefinitionObject TestDefinition | OtherArgument
  and TestDefinition =
    Definition (definition_name: string) (ignored: bool) (fn: "stmt list")

text \<open>
  \<^verbatim>\<open>
  function getDefinition() {
    if (typeof nameOrTestDefinition === "string") {
      if (!(fn instanceof Function)) { throw new TypeError("Expected function for second argument."); }
      return { name: nameOrTestDefinition, fn };
    } else if (typeof nameOrTestDefinition === "object") { return nameOrTestDefinition; }
    else { throw new TypeError("Expected a test definition or name and function."); }
  }
  \<close>
  The definition built from a name and a function has no \<^verbatim>\<open>ignored\<close> field, which
  \<^verbatim>\<open>if (definition.ignored)\<close> reads as false.
\<close>

fun getDefinition :: "stepArgs \<Rightarrow> jsvalue + TestDefinition" where
  "getDefinition (NameAndFn n f) = Inr (Definition n False f)"
| "getDefinition (NameOnly n) =
     Inl (JsError ''TypeError'' ''Expected function for second argument.'')"
| "getDefinition (DefinitionObject d) = Inr d"
| "getDefinition OtherArgument =
     Inl (JsError ''TypeError'' ''Expected a test definition or name and function.'')"

text \<open>
  What the harness does is recorded beside its output: \<open>Called d\<close> when the function
  of definition \<open>d\<close> is invoked, \<open>Loaded p\<close> when the module at path \<open>p\<close> is
  loaded, \<open>Recorded n e\<close> when the failure \<^verbatim>\<open>{ name: n, err: e }\<close> of a top-level test
  is pushed onto \<^verbatim>\<open>testFailures\<close>, \<open>Rejected e\<close> when a promise is rejected with
  \<open>e\<close> and nothing handles the rejection.
\<close>

datatype event =
  Called TestDefinition | Loaded string | Recorded string jsvalue | Rejected jsvalue

datatype outcome = Returned | Threw jsvalue

subsection \<open>Steps\<close>

text \<open>
  The context that \<^verbatim>\<open>step\<close> creates and pushes onto \<^verbatim>\<open>this.children\<close> before it
  looks at the definition.
\<close>

definition newChild :: "TestDefinition \<Rightarrow> TestContext" where
  "newChild d = Context (JsString (definition_name d)) Pending JsUndefined []"

definition setStatus :: "status \<Rightarrow> TestContext \<Rightarrow> TestContext" where
  "setStatus s c = Context (name c) s (err c) (children c)"

definition setErr :: "jsvalue \<Rightarrow> TestContext \<Rightarrow> TestContext" where
  "setErr e c = Context (name c) (status c) e (children c)"

definition pushChild :: "TestContext \<Rightarrow> TestContext \<Rightarrow> TestContext" where
  "pushChild child c = Context (name c) (status c) (err c) (children c @ [child])"

text \<open>
  The \<^verbatim>\<open>try\<close> block of \<^verbatim>\<open>step\<close> after \<^verbatim>\<open>await definition.fn(context)\<close> has
  settled: the context as stored, and the boolean the step resolves to.
  \<^verbatim>\<open>
      await definition.fn(context);
      context.status = "ok";
      if (context.hasFailingChild) { context.status = "fail"; return false; }
      return true;
    } catch (err) { context.status = "fail"; context.err = err; return false; }
  \<close>
\<close>

definition settleStep :: "outcome \<Rightarrow> TestContext \<Rightarrow> bool \<times> TestContext" where
  "settleStep r context =
     (case r of
        Returned \<Rightarrow>
          (let context = setStatus Ok context
           in if hasFailingChild context then (False, setStatus Fail context)
              else (True, context))
      | Threw e \<Rightarrow> (False, setErr e (setStatus Fail context)))"

text \<open>
  \<open>runBody\<close> runs a body against its context; \<open>step\<close> is \<^verbatim>\<open>this.step(...)\<close> awaited,
  returning the rejection or the boolean of its promise; \<open>startStep\<close> is the same
  call with its promise dropped: an error of \<^verbatim>\<open>getDefinition()\<close>, which stands
  before the \<^verbatim>\<open>try\<close>, rejects that promise with no handler. All return the context
  as the body leaves it (the child is shown in its parent's list in its final
  state: nothing reads the list while the child runs) and the extended record of
  events.
  \<^verbatim>\<open>
  async step(nameOrTestDefinition, fn) {
    const definition = getDefinition();
    const context = getTestContext();
    context.status = "pending";
    context.name = definition.name;
    context.status = "pending";
    this.children.push(context);
    if (definition.ignored) { context.status = "ignored"; return false; }
    try { ... }
  \<close>
\<close>

fun runBody :: "stmt list \<Rightarrow> TestContext \<Rightarrow> event list \<Rightarrow> outcome \<times> TestContext \<times> event list"
  and step :: "stepArgs \<Rightarrow> TestContext \<Rightarrow> event list \<Rightarrow> (jsvalue + bool) \<times> TestContext \<times> event list"
  and stepDefinition ::
    "TestDefinition \<Rightarrow> TestContext \<Rightarrow> event list \<Rightarrow> (jsvalue + bool) \<times> TestContext \<times> event list"
  and startStep :: "stepArgs \<Rightarrow> TestContext \<Rightarrow> event list \<Rightarrow> TestContext \<times> event list"
where
  "runBody [] this tr = (Returned, this, tr)"
| "runBody (AwaitStep a # rest) this tr =
     (case step a this tr of
        (Inl e, this', tr') \<Rightarrow> (Threw e, this', tr')
      | (Inr b, this', tr') \<Rightarrow> runBody rest this' tr')"
| "runBody (StartStep a # rest) this tr =
     (case startStep a this tr of (this', tr') \<Rightarrow> runBody rest this' tr')"
| "runBody (Throw v # rest) this tr = (Threw v, this, tr)"
| "step (NameAndFn n f) this tr = stepDefinition (Definition n False f) this tr"
| "step (NameOnly n) this tr =
     (Inl (JsError ''TypeError'' ''Expected function for second argument.''), this, tr)"
| "step (DefinitionObject d) this tr = stepDefinition d this tr"
| "step OtherArgument this tr =
     (Inl (JsError ''TypeError'' ''Expected a test definition or name and function.''), this, tr)"
| "stepDefinition (Definition n ign f) this tr =
     (if ign then
        (Inr False, pushChild (setStatus Ignored (newChild (Definition n ign f))) this, tr)
      else
        (case runBody f (newChild (Definition n ign f)) (tr @ [Called (Definition n ign f)]) of
           (r, context, tr') \<Rightarrow>
             (case settleStep r context of
                (b, context') \<Rightarrow> (Inr b, pushChild context' this, tr'))))"
| "startStep (NameAndFn n f) this tr =
     (pushChild (newChild (Definition n False f)) this, tr @ [Called (Definition n False f)])"
| "startStep (NameOnly n) this tr =
     (this, tr @ [Rejected (JsError ''TypeError'' ''Expected function for second argument.'')])"
| "startStep (DefinitionObject d) this tr =
     (if ignored d then (pushChild (setStatus Ignored (newChild d)) this, tr)
      else (pushChild (newChild d) this, tr @ [Called d]))"
| "startStep OtherArgument this tr =
     (this,
      tr @ [Rejected (JsError ''TypeError'' ''Expected a test definition or name and function.'')])"


subsection \<open>The top-level runner\<close>

text \<open>An entry of \<^verbatim>\<open>testFailures\<close>: \<^verbatim>\<open>{ name, err }\<close>.\<close>

record failure =
  failure_name :: string
  failure_err :: jsvalue

text \<open>How the harness process can end other than by \<^verbatim>\<open>main\<close> running through:
  \<^verbatim>\<open>process.exit(code)\<close>, or a promise (that of \<^verbatim>\<open>main()\<close>, or that of a step
  nobody awaits) rejected with nobody to handle it, which Node.js reports as an
  uncaught error.\<close>

datatype ending = Exit nat | UnhandledRejection jsvalue

text \<open>
  The state of the harness process: the queue \<^verbatim>\<open>testDefinitions\<close> of the shim's
  test internals, onto which a loaded module registers its tests; everything
  written to standard output; the record of events; how the process ended, if it
  has; and the paths of the modules loaded so far (a module is evaluated once).
\<close>

record process =
  testDefinitions :: "TestDefinition list"
  stdout :: string
  events :: "event list"
  ended :: "ending option"
  moduleCache :: "string list"

text \<open>\<^verbatim>\<open>process.stdout.write(text)\<close> and \<^verbatim>\<open>console.log(text)\<close>\<close>

definition stdoutWrite :: "string \<Rightarrow> process \<Rightarrow> process" where
  "stdoutWrite text p = p\<lparr>stdout := stdout p @ text\<rparr>"

definition consoleLog :: "string \<Rightarrow> process \<Rightarrow> process" where
  "consoleLog text p = p\<lparr>stdout := stdout p @ text @ [CHR 0x0A]\<rparr>"

text \<open>
  One turn of the loop of \<^verbatim>\<open>runTestDefinitions\<close>, on the failures collected so far
  and the process:
  \<^verbatim>\<open>
    process.stdout.write(definition.name + " ...");
    if (definition.ignored) { process.stdout.write(" ignored\n"); continue; }
    const context = getTestContext();
    let pass = false;
    try {
      await definition.fn(context);
      if (context.hasFailingChild) {
        testFailures.push({ name: definition.name, err: new Error("Had failing test step.") });
      } else { pass = true; }
    } catch (err) { testFailures.push({ name: definition.name, err }); }
    const testStepOutput = context.getOutput();
    if (testStepOutput.length > 0) { process.stdout.write(testStepOutput); }
    else { process.stdout.write(" "); }
    process.stdout.write(pass ? "ok\n" : "fail\n");
  \<close>
\<close>

definition runDefinition ::
  "TestDefinition \<Rightarrow> failure list \<times> process \<Rightarrow> failure list \<times> process" where
  "runDefinition d s =
     (case s of (testFailures, p) \<Rightarrow>
       (let p = stdoutWrite (definition_name d @ '' ...'') p in
        if ignored d then (testFailures, stdoutWrite ('' ignored'' @ [CHR 0x0A]) p)
        else
          (case runBody (fn d) getTestContext (events p @ [Called d]) of
             (r, context, tr) \<Rightarrow>
               (let failed =
                      (case r of
                         Returned \<Rightarrow>
                           (if hasFailingChild context
                            then Some (JsError ''Error'' ''Had failing test step.'')
                            else None)
                       | Threw e \<Rightarrow> Some e);
                    pass = (failed = None);
                    testFailures =
                      (case failed of
                         None \<Rightarrow> testFailures
                       | Some e \<Rightarrow>
                           testFailures @ [\<lparr>failure_name = definition_name d, failure_err = e\<rparr>]);
                    tr =
                      (case failed of
                         None \<Rightarrow> tr
                       | Some e \<Rightarrow> tr @ [Recorded (definition_name d) e]);
                    p = p\<lparr>events := tr\<rparr>;
                    testStepOutput = getOutput context;
                    p = (if length testStepOutput > 0 then stdoutWrite testStepOutput p
                         else stdoutWrite '' '' p)
                in (testFailures,
                    stdoutWrite ((if pass then ''ok'' else ''fail'') @ [CHR 0x0A]) p)))))"

text \<open>\<^verbatim>\<open>for (const definition of currentDefinitions) { ... }\<close>\<close>

fun runDefinitions ::
  "TestDefinition list \<Rightarrow> failure list \<times> process \<Rightarrow> failure list \<times> process" where
  "runDefinitions [] s = s"
| "runDefinitions (d # ds) s = runDefinitions ds (runDefinition d s)"

text \<open>
  \<^verbatim>\<open>
    for (const failure of testFailures) {
      console.log(failure.name);
      console.log(indentText(failure.err, 1));
      console.log("");
    }
  \<close>
\<close>

fun logFailures :: "failure list \<Rightarrow> process \<Rightarrow> process" where
  "logFailures [] p = p"
| "logFailures (f # fs) p =
     logFailures fs
       (consoleLog [] (consoleLog (indentText (failure_err f) 1) (consoleLog (failure_name f) p)))"

text \<open>
  \<^verbatim>\<open>
  async function runTestDefinitions() {
    const currentDefinitions = testDefinitions.splice(0, testDefinitions.length);
    const testFailures = [];
    for (const definition of currentDefinitions) { ... }
    if (testFailures.length > 0) {
      console.log("\nFAILURES\n");
      for (const failure of testFailures) { ... }
      process.exit(1);
    }
  }
  \<close>
  \<^verbatim>\<open>splice\<close> empties the queue and hands over what was in it.
\<close>

definition runTestDefinitions :: "process \<Rightarrow> process" where
  "runTestDefinitions p =
     (let currentDefinitions = testDefinitions p;
          p = p\<lparr>testDefinitions := []\<rparr>
      in case runDefinitions currentDefinitions ([], p) of
           (testFailures, p) \<Rightarrow>
             (if length testFailures > 0 then
                (logFailures testFailures
                   (consoleLog ([CHR 0x0A] @ ''FAILURES'' @ [CHR 0x0A]) p))\<lparr>ended := Some (Exit 1)\<rparr>
              else p))"

subsection \<open>The launcher\<close>

text \<open>
  \<^verbatim>\<open>require(path)\<close> and \<^verbatim>\<open>await import(path)\<close>. What the emitted modules do
  when they are evaluated is a parameter: \<open>modules path\<close> are the test
  definitions that the module at \<open>path\<close> registers. A module already in the
  cache is not evaluated again.
\<close>

definition loadModule :: "(string \<Rightarrow> TestDefinition list) \<Rightarrow> string \<Rightarrow> process \<Rightarrow> process" where
  "loadModule modules path p =
     (let p = p\<lparr>events := events p @ [Loaded path]\<rparr>
      in if path \<in> set (moduleCache p) then p
         else p\<lparr>testDefinitions := testDefinitions p @ modules path,
                 moduleCache := moduleCache p @ [path]\<rparr>)"

text \<open>The unhandled rejections of a record of events, in order.\<close>

fun rejections :: "event list \<Rightarrow> jsvalue list" where
  "rejections [] = []"
| "rejections (Rejected e # es) = e # rejections es"
| "rejections (e # es) = rejections es"

text \<open>
  Node.js reports a rejection that nothing handles when the microtasks in flight
  are done, and the report ends the process. \<open>reportRejections\<close> is that
  report, in a process that has not ended.
\<close>

definition reportRejections :: "process \<Rightarrow> process" where
  "reportRejections p =
     (if ended p \<noteq> None then p
      else case rejections (events p) of
             [] \<Rightarrow> p
           | e # es \<Rightarrow> p\<lparr>ended := Some (UnhandledRejection e)\<rparr>)"

text \<open>
  One half of a turn of the loop of \<^verbatim>\<open>main\<close>, for the build at \<open>path\<close>:
  \<^verbatim>\<open>
    console.log("\nRunning tests in " + cjsPath + "...\n");
    require(cjsPath);
    await runTestDefinitions();
  \<close>
  and the same with \<^verbatim>\<open>await import(esmPath)\<close> for the ESM build. The runner and
  the bodies modelled here wait for microtasks only, and \<^verbatim>\<open>require\<close> does not
  wait: the first occasion for the runtime to report an unhandled rejection is
  the import of an ESM build, before the module is evaluated. Whether the runtime
  takes that occasion is \<open>report\<close>.

  The launcher script defines \<^verbatim>\<open>runTestDefinitions\<close> only when the test code used
  the shim (\<^verbatim>\<open>if (testOutput.shimUsed) { fileText += getRunTestDefinitionsCode() }\<close>),
  and calls it in either case: without the definition the call is a
  \<^verbatim>\<open>ReferenceError\<close>, which rejects the promise of \<^verbatim>\<open>main()\<close>.
\<close>

definition runBuild ::
  "(string \<Rightarrow> TestDefinition list) \<Rightarrow> bool \<Rightarrow> bool \<Rightarrow> string \<Rightarrow> process \<Rightarrow> process" where
  "runBuild modules shimWasUsed report path p =
     (let p = consoleLog ([CHR 0x0A] @ ''Running tests in '' @ path @ ''...'' @ [CHR 0x0A]) p;
          p = (if report then reportRejections p else p)
      in if ended p \<noteq> None then p
         else
           (let p = loadModule modules path p
            in if shimWasUsed then runTestDefinitions p
               else p\<lparr>ended :=
                        Some (UnhandledRejection
                          (JsError ''ReferenceError'' ''runTestDefinitions is not defined''))\<rparr>))"

text \<open>
  \<^verbatim>\<open>
  async function main() {
    for (const filePath of filePaths) {
      const cjsPath = "./cjs/" + filePath;
      ...
      const esmPath = "./esm/" + filePath;
      ...
    }
  }
  \<close>
  Nothing runs in a process that has ended. \<open>reports path\<close> tells whether the
  runtime reports unhandled rejections while it imports the ESM build at
  \<open>path\<close>; when \<^verbatim>\<open>main\<close> has returned it reports what is left.
\<close>

fun main ::
  "(string \<Rightarrow> TestDefinition list) \<Rightarrow> (string \<Rightarrow> bool) \<Rightarrow> bool \<Rightarrow> string list \<Rightarrow> process \<Rightarrow> process"
where
  "main modules reports shimWasUsed [] p = reportRejections p"
| "main modules reports shimWasUsed (filePath # filePaths) p =
     (let p = runBuild modules shimWasUsed False (''./cjs/'' @ filePath) p in
      if ended p \<noteq> None then p
      else
        (let p = runBuild modules shimWasUsed (reports (''./esm/'' @ filePath))
                   (''./esm/'' @ filePath) p in
         if ended p \<noteq> None then p
         else main modules reports shimWasUsed filePaths p))"

text \<open>The process as the launcher script starts in it.\<close>

definition freshProcess :: process where
  "freshProcess =
     \<lparr>testDefinitions = [], stdout = [], events = [], ended = None, moduleCache = []\<rparr>"



subsection \<open>Vocabulary for the claims about the harness\<close>


text \<open>The failures of the \<open>Recorded\<close> events of a record, in order.\<close>

fun recorded :: "event list \<Rightarrow> failure list" where
  "recorded [] = []"
| "recorded (Recorded n e # es) = \<lparr>failure_name = n, failure_err = e\<rparr> # recorded es"
| "recorded (e # es) = recorded es"

text \<open>The events a body can add: the call of a definition that is not ignored, and
  a rejection left unhandled.\<close>

fun bodyEvent :: "event \<Rightarrow> bool" where
  "bodyEvent (Called d) = (\<not> ignored d)"
| "bodyEvent (Rejected e) = True"
| "bodyEvent e = False"




text \<open>What running a body leaves untouched in its own context.\<close>

definition frame :: "TestContext \<Rightarrow> TestContext \<Rightarrow> bool" where
  "frame c c' = (name c' = name c \<and> status c' = status c \<and> err c' = err c)"

text \<open>What running a body may do to the record of events.\<close>

definition extends :: "event list \<Rightarrow> event list \<Rightarrow> bool" where
  "extends tr tr' = (\<exists>ext. tr' = tr @ ext \<and> list_all bodyEvent ext)"

text \<open>The events of a drain pass: those of the bodies, and recorded failures.\<close>

fun drainEvent :: "event \<Rightarrow> bool" where
  "drainEvent (Called d) = (\<not> ignored d)"
| "drainEvent (Recorded n e) = True"
| "drainEvent (Rejected e) = True"
| "drainEvent (Loaded p) = False"


text \<open>The events of a harness run: any, but for the call of an ignored definition.\<close>

fun harnessEvent :: "event \<Rightarrow> bool" where
  "harnessEvent (Called d) = (\<not> ignored d)"
| "harnessEvent e = True"



text \<open>
  A registered definition run to completion within the events \<open>seg\<close>: unless it is
  ignored, its function is called there, and when the first thing its body does
  is throw \<open>v\<close>, the failure with \<open>v\<close> is recorded there.
\<close>

definition ranIn :: "event list \<Rightarrow> TestDefinition \<Rightarrow> bool" where
  "ranIn seg d =
     (ignored d \<or>
      Called d \<in> set seg \<and>
      (case fn d of
         Throw v # rest \<Rightarrow> Recorded (definition_name d) v \<in> set seg
       | _ \<Rightarrow> True))"

text \<open>The calls of the definitions of a list that are not ignored, in the order of
  the list.\<close>

definition liveCalls :: "TestDefinition list \<Rightarrow> event list" where
  "liveCalls ds = map Called (filter (\<lambda>d. \<not> ignored d) ds)"

text \<open>
  How the run of a top-level definition ends: with the failure that the runner
  pushes for it (what its body throws, or the error for a failing step), or with
  none. The failures of a list of definitions are those of the ones not ignored,
  in the order of the list.
\<close>

definition verdict :: "TestDefinition \<Rightarrow> jsvalue option" where
  "verdict d =
     (case runBody (fn d) getTestContext [] of
        (Returned, context, tr) \<Rightarrow>
          (if hasFailingChild context then Some (JsError ''Error'' ''Had failing test step.'')
           else None)
      | (Threw e, context, tr) \<Rightarrow> Some e)"

definition failuresOf :: "TestDefinition list \<Rightarrow> failure list" where
  "failuresOf ds =
     concat (map (\<lambda>d. if ignored d then []
                        else case verdict d of
                               None \<Rightarrow> []
                             | Some e \<Rightarrow> [\<lparr>failure_name = definition_name d, failure_err = e\<rparr>])
               ds)"


text \<open>
  The text that the summary of \<^verbatim>\<open>runTestDefinitions\<close> prints for its failures, after
  the line \<^verbatim>\<open>FAILURES\<close>: for each the name, the indented error and an empty line.
\<close>

definition failuresText :: "failure list \<Rightarrow> string" where
  "failuresText fs =
     concat (map (\<lambda>f. failure_name f @ [CHR 0x0A] @ indentText (failure_err f) 1 @ [CHR 0x0A] @
                        [CHR 0x0A]) fs)"


section \<open>The package manifest (\<^verbatim>\<open>createPackageJson\<close>)\<close>

subsection \<open>JavaScript objects\<close>

text \<open>
  The package template \<^verbatim>\<open>options.package\<close> is a \<^verbatim>\<open>PackageJsonObject\<close>, an object
  whose fields beyond \<^verbatim>\<open>name\<close> and \<^verbatim>\<open>version\<close> have type \<^verbatim>\<open>any\<close>. Its values are
  modelled as the values that \<^verbatim>\<open>JSON.stringify\<close> writes or drops: \<^verbatim>\<open>undefined\<close>,
  \<^verbatim>\<open>null\<close>, booleans, strings (of 8-bit characters), arrays and objects. (Numbers
  are left out: their text is that of a floating-point number.) An object is the
  list of its properties in property order, as in an object literal; were a key
  written twice, the later entry would count.
\<close>

datatype json =
  JUndefined | JNull | JBoolean bool | JString string | JArray "json list"
  | JObject "(string \<times> json) list"

text \<open>The decimal numeral of a natural number, as array indices are written as keys.\<close>

definition digitChar :: "nat \<Rightarrow> char" where
  "digitChar d = char_of (48 + d)"

fun decimal :: "nat \<Rightarrow> string" where
  "decimal n = (if n < 10 then [digitChar n] else decimal (n div 10) @ [digitChar (n mod 10)])"

definition isDigit :: "char \<Rightarrow> bool" where
  "isDigit c = (48 \<le> (of_char c :: nat) \<and> (of_char c :: nat) \<le> 57)"

definition intOfDigits :: "string \<Rightarrow> int" where
  "intOfDigits s = foldl (\<lambda>n c. 10 * n + ((of_char c :: int) - 48)) 0 s"

text \<open>
  A property key that is an array index: the canonical numeral of a number below
  \<open>2^32 - 1\<close>. The keys of an object are listed with the array indices first, in
  ascending order, and then the other keys in the order of their creation.
\<close>

definition isArrayIndex :: "string \<Rightarrow> bool" where
  "isArrayIndex k =
     (k \<noteq> [] \<and> list_all isDigit k \<and> (length k = 1 \<or> hd k \<noteq> CHR ''0'') \<and>
      intOfDigits k < 4294967295)"

fun setExisting :: "string \<Rightarrow> json \<Rightarrow> (string \<times> json) list \<Rightarrow> (string \<times> json) list" where
  "setExisting k v [] = []"
| "setExisting k v ((k', v') # ps) =
     (if k' = k then (k, v) # ps else (k', v') # setExisting k v ps)"

fun insertIndex :: "int \<Rightarrow> string \<Rightarrow> json \<Rightarrow> (string \<times> json) list \<Rightarrow> (string \<times> json) list" where
  "insertIndex i k v [] = [(k, v)]"
| "insertIndex i k v ((k', v') # ps) =
     (if isArrayIndex k' \<and> intOfDigits k' < i then (k', v') # insertIndex i k v ps
      else (k, v) # (k', v') # ps)"

text \<open>
  Setting property \<open>k\<close> of an object under construction to \<open>v\<close>: an existing
  property keeps its place and takes the new value, a new one is created at its
  place in property order.
\<close>

definition objSet :: "(string \<times> json) list \<Rightarrow> string \<Rightarrow> json \<Rightarrow> (string \<times> json) list" where
  "objSet obj k v =
     (if k \<in> set (map fst obj) then setExisting k v obj
      else if isArrayIndex k then insertIndex (intOfDigits k) k v obj
      else obj @ [(k, v)])"

text \<open>
  The own enumerable properties of a value, which a spread \<^verbatim>\<open>...value\<close> copies:
  those of an object, the elements of an array and the characters of a string
  under their indices, none for the other values.
\<close>

fun ownEntries :: "json \<Rightarrow> (string \<times> json) list" where
  "ownEntries (JObject ps) = ps"
| "ownEntries (JArray xs) = zip (map decimal [0..<length xs]) xs"
| "ownEntries (JString s) = zip (map decimal [0..<length s]) (map (\<lambda>c. JString [c]) s)"
| "ownEntries v = []"

text \<open>\<^verbatim>\<open>{ ...target, ...source }\<close>, with the entries of the source given.\<close>

definition spread :: "(string \<times> json) list \<Rightarrow> (string \<times> json) list \<Rightarrow> (string \<times> json) list" where
  "spread target entries = fold (\<lambda>(k, v) obj. objSet obj k v) entries target"

text \<open>\<^verbatim>\<open>Object.fromEntries(entries)\<close>\<close>

definition fromEntries :: "(string \<times> json) list \<Rightarrow> (string \<times> json) list" where
  "fromEntries entries = spread [] entries"

text \<open>\<^verbatim>\<open>a ?? b\<close>\<close>

definition coalesce :: "json \<Rightarrow> json \<Rightarrow> json" where
  "coalesce a b = (if a = JUndefined \<or> a = JNull then b else a)"

text \<open>
  Reading a property: \<^verbatim>\<open>object.key\<close> and \<^verbatim>\<open>value?.[key]\<close>. The keys read here
  (\<^verbatim>\<open>main\<close>, \<^verbatim>\<open>exports\<close>, \<^verbatim>\<open>"."\<close>, ...) are no array index and not \<^verbatim>\<open>length\<close>,
  so a string or an array has no such property.
\<close>

definition entriesMap :: "(string \<times> json) list \<Rightarrow> string \<Rightarrow> json option" where
  "entriesMap ps = map_of (rev ps)"

fun getProp :: "json \<Rightarrow> string \<Rightarrow> json" where
  "getProp (JObject ps) k = (case entriesMap ps k of None \<Rightarrow> JUndefined | Some v \<Rightarrow> v)"
| "getProp v k = JUndefined"

subsection \<open>\<^verbatim>\<open>JSON.stringify(value, undefined, 2)\<close>\<close>

definition hexDigit :: "nat \<Rightarrow> char" where
  "hexDigit d = (if d < 10 then char_of (48 + d) else char_of (87 + d))"

text \<open>The escape of one character in \<^verbatim>\<open>QuoteJSONString\<close>.\<close>

definition escapeChar :: "char \<Rightarrow> string" where
  "escapeChar c =
     (if c = CHR 0x08 then [CHR 0x5C, CHR ''b'']
      else if c = CHR 0x09 then [CHR 0x5C, CHR ''t'']
      else if c = CHR 0x0A then [CHR 0x5C, CHR ''n'']
      else if c = CHR 0x0C then [CHR 0x5C, CHR ''f'']
      else if c = CHR 0x0D then [CHR 0x5C, CHR ''r'']
      else if c = CHR 0x22 then [CHR 0x5C, CHR 0x22]
      else if c = CHR 0x5C then [CHR 0x5C, CHR 0x5C]
      else if (of_char c :: nat) < 32 then
        [CHR 0x5C, CHR ''u'', CHR ''0'', CHR ''0'',
         hexDigit ((of_char c :: nat) div 16), hexDigit ((of_char c :: nat) mod 16)]
      else [c])"

definition quoteJSONString :: "string \<Rightarrow> string" where
  "quoteJSONString s = [CHR 0x22] @ concat (map escapeChar s) @ [CHR 0x22]"

text \<open>
  \<^verbatim>\<open>SerializeJSONProperty\<close> with the gap of two spaces, at the current indent:
  \<open>None\<close> is the \<^verbatim>\<open>undefined\<close> that makes an object drop the property and an
  array write \<^verbatim>\<open>null\<close>.
\<close>

fun serialize :: "string \<Rightarrow> json \<Rightarrow> string option"
  and serializeMembers :: "string \<Rightarrow> (string \<times> json) list \<Rightarrow> string list"
  and serializeElements :: "string \<Rightarrow> json list \<Rightarrow> string list"
where
  "serialize indent JUndefined = None"
| "serialize indent JNull = Some ''null''"
| "serialize indent (JBoolean b) = Some (if b then ''true'' else ''false'')"
| "serialize indent (JString s) = Some (quoteJSONString s)"
| "serialize indent (JArray xs) =
     Some (if xs = [] then ''[]''
           else ''['' @ [CHR 0x0A] @ (indent @ ''  '') @
                join ('','' @ [CHR 0x0A] @ (indent @ ''  '')) (serializeElements (indent @ ''  '') xs) @
                [CHR 0x0A] @ indent @ '']'')"
| "serialize indent (JObject ps) =
     Some (let partial = serializeMembers (indent @ ''  '') ps
           in if partial = [] then ''{}''
              else ''{'' @ [CHR 0x0A] @ (indent @ ''  '') @
                   join ('','' @ [CHR 0x0A] @ (indent @ ''  '')) partial @
                   [CHR 0x0A] @ indent @ ''}'')"
| "serializeMembers indent [] = []"
| "serializeMembers indent ((k, v) # ps) =
     (case serialize indent v of
        None \<Rightarrow> serializeMembers indent ps
      | Some str \<Rightarrow> (quoteJSONString k @ '':'' @ '' '' @ str) # serializeMembers indent ps)"
| "serializeElements indent [] = []"
| "serializeElements indent (v # vs) =
     (case serialize indent v of None \<Rightarrow> ''null'' | Some str \<Rightarrow> str)
       # serializeElements indent vs"

definition stringify :: "json \<Rightarrow> string option" where
  "stringify v = serialize [] v"

subsection \<open>The inputs of \<^verbatim>\<open>createPackageJson\<close>\<close>

text \<open>
  \<^verbatim>\<open>Dependency\<close> and \<^verbatim>\<open>TransformOutput\<close> come from \<^verbatim>\<open>transform.ts\<close>; of the
  transform output and of the test output (\<^verbatim>\<open>interface TestOutput\<close>) the model
  keeps the fields that \<^verbatim>\<open>createPackageJson\<close> and the launcher read.
\<close>

record Dependency =
  dependency_name :: string
  dependency_version :: string

record TransformOutput =
  entryPoints :: "string list"
  shimUsed :: bool
  dependencies :: "Dependency list"

type_synonym TestOutput = TransformOutput

text \<open>A value of \<^verbatim>\<open>options.mappings\<close>: \<^verbatim>\<open>{ name: string; version?: string }\<close>.\<close>

record SpecifierMapping =
  mapping_name :: string
  mapping_version :: "string option"

text \<open>\<^verbatim>\<open>shimPackage\<close>: \<^verbatim>\<open>{ name: string; version: string }\<close>.\<close>

record ShimPackage =
  shimPackage_name :: string
  shimPackage_version :: string

text \<open>\<^verbatim>\<open>options.shimPackage ?? { name: "deno.ns", version: "0.5.0" }\<close>\<close>

definition resolveShimPackage :: "ShimPackage option \<Rightarrow> ShimPackage" where
  "resolveShimPackage given =
     (case given of
        None \<Rightarrow> \<lparr>shimPackage_name = ''deno.ns'', shimPackage_version = ''0.5.0''\<rparr>
      | Some s \<Rightarrow> s)"

text \<open>
  What the closure \<^verbatim>\<open>createPackageJson\<close> reads of the enclosing \<^verbatim>\<open>build\<close>:
  the transform output; the test output, if there are tests; the shim package;
  the specifier mappings with their (already rewritten) keys, if any were given;
  the package template and the output directory of the options; and the two
  functions of the path library it calls.
\<close>

record BuildEnv =
  transformOutput :: TransformOutput
  testOutput :: "TestOutput option"
  shimPackage :: ShimPackage
  specifierMappings :: "(string \<times> SpecifierMapping) list option"
  options_package :: "(string \<times> json) list"
  options_outDir :: string
  path_join :: "string \<Rightarrow> string \<Rightarrow> string"
  path_dirname :: "string \<Rightarrow> string"

subsection \<open>\<^verbatim>\<open>createPackageJson\<close>\<close>

text \<open>
  \<^verbatim>\<open>text.replace(/\.ts$/i, replacement)\<close>, and without the flag \<^verbatim>\<open>i\<close> when
  \<open>ignoreCase\<close> is false: the pattern matches the last three characters of the
  text or nothing.
\<close>

definition endsWithTs :: "bool \<Rightarrow> string \<Rightarrow> bool" where
  "endsWithTs ignoreCase text =
     (length text \<ge> 3 \<and>
      (let e = drop (length text - 3) text
       in e ! 0 = CHR ''.'' \<and>
          (e ! 1 = CHR ''t'' \<or> ignoreCase \<and> e ! 1 = CHR ''T'') \<and>
          (e ! 2 = CHR ''s'' \<or> ignoreCase \<and> e ! 2 = CHR ''S'')))"

definition replaceTs :: "bool \<Rightarrow> string \<Rightarrow> string \<Rightarrow> string" where
  "replaceTs ignoreCase replacement text =
     (if endsWithTs ignoreCase text then take (length text - 3) text @ replacement else text)"

text \<open>\<^verbatim>\<open>.filter((v) => v.version)\<close>: a version that is present and not the empty string.\<close>

definition hasVersion :: "SpecifierMapping \<Rightarrow> bool" where
  "hasVersion v = (case mapping_version v of None \<Rightarrow> False | Some s \<Rightarrow> s \<noteq> [])"

definition dependencyEntries :: "Dependency list \<Rightarrow> (string \<times> json) list" where
  "dependencyEntries ds = map (\<lambda>d. (dependency_name d, JString (dependency_version d))) ds"

definition mappingEntries :: "(string \<times> SpecifierMapping) list \<Rightarrow> (string \<times> json) list" where
  "mappingEntries ms =
     map (\<lambda>v. (mapping_name v, case mapping_version v of None \<Rightarrow> JUndefined | Some s \<Rightarrow> JString s))
       (filter hasVersion (map snd ms))"

definition shimEntry :: "ShimPackage \<Rightarrow> (string \<times> json) list" where
  "shimEntry s = [(shimPackage_name s, JString (shimPackage_version s))]"

text \<open>
  \<^verbatim>\<open>
    const dependencies = {
      ...Object.fromEntries(transformOutput.dependencies.map((d) => [d.name, d.version])),
      ...(specifierMappings && Object.fromEntries(
        Object.values(specifierMappings)
          .filter((v) => v.version)
          .map((value) => [value.name, value.version]),
      )) ?? {},
      ...(transformOutput.shimUsed ? { [shimPackage.name]: shimPackage.version } : {}),
      ...(options.package.dependencies ?? {}),
    };
  \<close>
\<close>

definition dependenciesObject :: "BuildEnv \<Rightarrow> (string \<times> json) list" where
  "dependenciesObject env =
     (let obj = spread [] (fromEntries (dependencyEntries (dependencies (transformOutput env))));
          obj = spread obj
                  (case specifierMappings env of
                     None \<Rightarrow> []
                   | Some ms \<Rightarrow> fromEntries (mappingEntries ms));
          obj = spread obj
                  (if shimUsed (transformOutput env) then shimEntry (shimPackage env) else [])
      in spread obj
           (ownEntries (coalesce (getProp (JObject (options_package env)) ''dependencies'')
              (JObject []))))"

text \<open>
  \<^verbatim>\<open>
    const devDependencies = testOutput
      ? ({
        ...Object.fromEntries(testOutput.dependencies.map((d) => [d.name, d.version]) ?? []),
        ...(testOutput.shimUsed && !Object.keys(dependencies).includes(shimPackage.name)
          ? { [shimPackage.name]: shimPackage.version } : {}),
        ...(options.package.devDependencies ?? {}),
      })
      : options.package.devDependencies;
  \<close>
\<close>

definition devDependenciesValue :: "BuildEnv \<Rightarrow> json" where
  "devDependenciesValue env =
     (case testOutput env of
        Some t \<Rightarrow>
          (let obj = spread [] (fromEntries (dependencyEntries (dependencies t)));
               obj = spread obj
                       (if shimUsed t \<and>
                           shimPackage_name (shimPackage env)
                             \<notin> set (map fst (dependenciesObject env))
                        then shimEntry (shimPackage env) else [])
           in JObject
                (spread obj
                   (ownEntries
                      (coalesce (getProp (JObject (options_package env)) ''devDependencies'')
                         (JObject [])))))
      | None \<Rightarrow> getProp (JObject (options_package env)) ''devDependencies'')"

text \<open>
  \<^verbatim>\<open>
    const scripts = testOutput
      ? ({ test: "node test_runner.js", ...(options.package.scripts ?? {}) })
      : options.package.scripts;
  \<close>
\<close>

definition scriptsValue :: "BuildEnv \<Rightarrow> json" where
  "scriptsValue env =
     (case testOutput env of
        Some t \<Rightarrow>
          JObject
            (spread [(''test'', JString ''node test_runner.js'')]
               (ownEntries
                  (coalesce (getProp (JObject (options_package env)) ''scripts'') (JObject []))))
      | None \<Rightarrow> getProp (JObject (options_package env)) ''scripts'')"

text \<open>
  The value of \<^verbatim>\<open>exports\<close>, for the two derived paths:
  \<^verbatim>\<open>
      exports: {
        ...(options.package.exports ?? {}),
        ".": {
          import: `./esm/${entryPointPath}`,
          require: `./cjs/${entryPointPath}`,
          types: options.package.types ?? `./types/${entryPointDtsFilePath}`,
          ...(options.package.exports?.["."] ?? {}),
        },
      },
  \<close>
\<close>

definition dotExport :: "(string \<times> json) list \<Rightarrow> string \<Rightarrow> string \<Rightarrow> (string \<times> json) list" where
  "dotExport pkg entryPointPath entryPointDtsFilePath =
     spread
       [(''import'', JString (''./esm/'' @ entryPointPath)),
        (''require'', JString (''./cjs/'' @ entryPointPath)),
        (''types'',
         coalesce (getProp (JObject pkg) ''types'') (JString (''./types/'' @ entryPointDtsFilePath)))]
       (ownEntries (coalesce (getProp (getProp (JObject pkg) ''exports'') ''.'') (JObject [])))"

definition exportsObject :: "(string \<times> json) list \<Rightarrow> string \<Rightarrow> string \<Rightarrow> (string \<times> json) list" where
  "exportsObject pkg entryPointPath entryPointDtsFilePath =
     objSet
       (spread [] (ownEntries (coalesce (getProp (JObject pkg) ''exports'') (JObject []))))
       ''.'' (JObject (dotExport pkg entryPointPath entryPointDtsFilePath))"

text \<open>
  The object \<^verbatim>\<open>packageJsonObj\<close>. \<^verbatim>\<open>transformOutput.entryPoints[0]\<close> is
  \<^verbatim>\<open>undefined\<close> for an empty list, and calling \<^verbatim>\<open>replace\<close> on it a \<^verbatim>\<open>TypeError\<close>.
  \<^verbatim>\<open>
    const packageJsonObj = {
      ...options.package,
      module: options.package.module ?? `./esm/${entryPointPath}`,
      main: options.package.main ?? `./cjs/${entryPointPath}`,
      types: options.package.types ?? `./types/${entryPointDtsFilePath}`,
      exports: { ... },
      scripts,
      dependencies,
      devDependencies,
    };
  \<close>
\<close>

definition packageJsonObj :: "BuildEnv \<Rightarrow> jsvalue + (string \<times> json) list" where
  "packageJsonObj env =
     (case entryPoints (transformOutput env) of
        [] \<Rightarrow>
          Inl (JsError ''TypeError'' ''transformOutput.entryPoints[0] is undefined'')
      | first # _ \<Rightarrow>
          (let entryPointPath = replaceTs True ''.js'' first;
               entryPointDtsFilePath = replaceTs True ''.d.ts'' first;
               pkg = options_package env;
               obj = spread [] pkg;
               obj = objSet obj ''module''
                       (coalesce (getProp (JObject pkg) ''module'')
                          (JString (''./esm/'' @ entryPointPath)));
               obj = objSet obj ''main''
                       (coalesce (getProp (JObject pkg) ''main'')
                          (JString (''./cjs/'' @ entryPointPath)));
               obj = objSet obj ''types''
                       (coalesce (getProp (JObject pkg) ''types'')
                          (JString (''./types/'' @ entryPointDtsFilePath)));
               obj = objSet obj ''exports''
                       (JObject (exportsObject pkg entryPointPath entryPointDtsFilePath));
               obj = objSet obj ''scripts'' (scriptsValue env);
               obj = objSet obj ''dependencies'' (JObject (dependenciesObject env))
           in Inr (objSet obj ''devDependencies'' (devDependenciesValue env))))"

text \<open>
  The file sink of the build when \<^verbatim>\<open>options.writeFile\<close> is not given: the set
  \<^verbatim>\<open>createdDirectories\<close>, the calls of \<^verbatim>\<open>Deno.mkdirSync\<close> and the calls of
  \<^verbatim>\<open>Deno.writeTextFileSync\<close>, each in order.
  \<^verbatim>\<open>
    ((filePath: string, fileText: string) => {
      const dir = path.dirname(filePath);
      if (!createdDirectories.has(dir)) {
        Deno.mkdirSync(dir, { recursive: true });
        createdDirectories.add(dir);
      }
      Deno.writeTextFileSync(filePath, fileText);
    });
  \<close>
\<close>

record FileSink =
  createdDirectories :: "string list"
  mkdirCalls :: "string list"
  writeCalls :: "(string \<times> string) list"

definition writeFile :: "BuildEnv \<Rightarrow> string \<Rightarrow> string \<Rightarrow> FileSink \<Rightarrow> FileSink" where
  "writeFile env filePath fileText sink =
     (let dir = path_dirname env filePath;
          sink =
            (if dir \<notin> set (createdDirectories sink) then
               sink\<lparr>mkdirCalls := mkdirCalls sink @ [dir],
                     createdDirectories := createdDirectories sink @ [dir]\<rparr>
             else sink)
      in sink\<lparr>writeCalls := writeCalls sink @ [(filePath, fileText)]\<rparr>)"

text \<open>
  \<^verbatim>\<open>
    writeFile(
      path.join(options.outDir, "package.json"),
      JSON.stringify(packageJsonObj, undefined, 2),
    );
  \<close>
\<close>

definition createPackageJson :: "BuildEnv \<Rightarrow> FileSink \<Rightarrow> jsvalue + FileSink" where
  "createPackageJson env sink =
     (case packageJsonObj env of
        Inl e \<Rightarrow> Inl e
      | Inr obj \<Rightarrow>
          Inr (writeFile env (path_join env (options_outDir env) ''package.json'')
                 (case stringify (JObject obj) of None \<Rightarrow> ''undefined'' | Some text \<Rightarrow> text)
                 sink))"




text \<open>A minimal build to make examples from: one entry point \<^verbatim>\<open>mod.ts\<close> that uses the
  shim, no tests, no mappings, the default shim package.\<close>

definition plainEnv :: BuildEnv where
  "plainEnv =
     \<lparr>transformOutput = \<lparr>entryPoints = [''mod.ts''], shimUsed = True, dependencies = []\<rparr>,
      testOutput = None,
      shimPackage = resolveShimPackage None,
      specifierMappings = None,
      options_package = [(''name'', JString ''pkg''), (''version'', JString ''1.0.0'')],
      options_outDir = ''npm'',
      path_join = (\<lambda>a b. a @ ''/'' @ b),
      path_dirname = (\<lambda>p. ''npm'')\<rparr>"


text \<open>A build whose four sources of dependencies collide: the transform reports
  \<^verbatim>\<open>a\<close> and \<^verbatim>\<open>b\<close>, the mappings give \<^verbatim>\<open>c\<close> and \<^verbatim>\<open>a\<close> with a version, \<^verbatim>\<open>d\<close>
  with none and \<^verbatim>\<open>e\<close> with the empty version, the shim is used, and the package
  template declares \<^verbatim>\<open>b\<close>.\<close>

definition mergeEnv :: BuildEnv where
  "mergeEnv =
     plainEnv
       \<lparr>transformOutput :=
          \<lparr>entryPoints = [''mod.ts''], shimUsed = True,
           dependencies =
             [\<lparr>dependency_name = ''a'', dependency_version = ''1.0.0''\<rparr>,
              \<lparr>dependency_name = ''b'', dependency_version = ''2.0.0''\<rparr>]\<rparr>,
        specifierMappings :=
          Some [(''https://x/c.ts'', \<lparr>mapping_name = ''c'', mapping_version = Some ''3.0.0''\<rparr>),
                (''https://x/d.ts'', \<lparr>mapping_name = ''d'', mapping_version = None\<rparr>),
                (''https://x/e.ts'', \<lparr>mapping_name = ''e'', mapping_version = Some []\<rparr>),
                (''https://x/a.ts'', \<lparr>mapping_name = ''a'', mapping_version = Some ''1.5.0''\<rparr>)],
        options_package :=
          [(''name'', JString ''pkg''), (''version'', JString ''1.0.0''),
           (''dependencies'', JObject [(''b'', JString ''9.9.9'')])]\<rparr>"



section \<open>Properties of shim resolution\<close>

lemma shims_add: "shims (add option s r) = shims r @ distPart option s"
  by (simp add: add_def distPart_def)

lemma testShims_add: "testShims (add option s r) = testShims r @ testPart option s"
  by (simp add: add_def testPart_def)

lemma addDeno_add: "addDeno d r = add (denoValue d) (denoDescriptor d) r"
  by (simp add: addDeno_def denoValue_def denoDescriptor_def
      split: option.splits DenoOption.splits)

lemma shims_addCustom: "shims (addCustom c r) = shims r @ suppliedShims c"
  by (simp add: addCustom_def suppliedShims_def split: option.splits)

lemma testShims_addCustom: "testShims (addCustom c r) = testShims r @ suppliedShims c"
  by (simp add: addCustom_def suppliedShims_def split: option.splits)

lemma shims_addCustomDev: "shims (addCustomDev c r) = shims r"
  by (simp add: addCustomDev_def split: option.splits)

lemma testShims_addCustomDev: "testShims (addCustomDev c r) = testShims r @ suppliedShims c"
  by (simp add: addCustomDev_def suppliedShims_def split: option.splits)

text \<open>The two returned arrays, in the order the source fills them.\<close>

lemma shims_closed:
  "shims (shimOptionsToTransformShims options) =
     distPart (denoValue (deno options)) (denoDescriptor (deno options)) @
     distPart (blob options) getBlobShim @
     distPart (crypto options) getCryptoShim @
     distPart (prompts options) getPromptsShim @
     distPart (timers options) getTimersShim @
     distPart (undici options) getUndiciShim @
     suppliedShims (custom options)"
  by (simp add: shimOptionsToTransformShims_def addDeno_add shims_add shims_addCustom
      shims_addCustomDev)

lemma testShims_closed:
  "testShims (shimOptionsToTransformShims options) =
     testPart (denoValue (deno options)) (denoDescriptor (deno options)) @
     testPart (blob options) getBlobShim @
     testPart (crypto options) getCryptoShim @
     testPart (prompts options) getPromptsShim @
     testPart (timers options) getTimersShim @
     testPart (undici options) getUndiciShim @
     suppliedShims (custom options) @
     suppliedShims (customDev options)"
  by (simp add: shimOptionsToTransformShims_def addDeno_add testShims_add testShims_addCustom
      testShims_addCustomDev)

lemma package_names:
  "package_name (package getDenoShim) = ''@deno/shim-deno''"
  "package_name (package getDenoTestShim) = ''@deno/shim-deno-test''"
  "package_name (package getBlobShim) = ''buffer''"
  "package_name (package getCryptoShim) = ''@deno/shim-crypto''"
  "package_name (package getPromptsShim) = ''@deno/shim-prompts''"
  "package_name (package getTimersShim) = ''@deno/shim-timers''"
  "package_name (package getUndiciShim) = ''undici''"
  by (simp_all add: getDenoShim_def getDenoTestShim_def getBlobShim_def getCryptoShim_def
      getPromptsShim_def getTimersShim_def getUndiciShim_def)

text \<open>Shims of different packages are different shims.\<close>

lemma shim_eq_False:
  "package_name (package a) \<noteq> package_name (package b) \<Longrightarrow> (a = b) = False"
  by auto

lemma denoDescriptor_simps:
  "denoDescriptor None = getDenoShim"
  "denoDescriptor (Some (DenoValue v)) = getDenoShim"
  "denoDescriptor (Some (DenoObject t)) = getDenoTestShim"
  by (simp_all add: denoDescriptor_def)

lemma denoValue_simps:
  "denoValue None = None"
  "denoValue (Some (DenoValue v)) = Some v"
  "denoValue (Some (DenoObject t)) = Some t"
  by (simp_all add: denoValue_def)

lemma count_distPart:
  "count_list (distPart option s) d = (if option = Some (Bool True) \<and> s = d then 1 else 0)"
  by (simp add: distPart_def)

lemma count_testPart:
  "count_list (testPart option s) d =
     (if (option = Some (Bool True) \<or> option = Some Dev) \<and> s = d then 1 else 0)"
  by (simp add: testPart_def)

lemma count_shims:
  "count_list (shims (shimOptionsToTransformShims options)) d =
     (if denoValue (deno options) = Some (Bool True) \<and> denoDescriptor (deno options) = d
      then 1 else 0) +
     (if blob options = Some (Bool True) \<and> getBlobShim = d then 1 else 0) +
     (if crypto options = Some (Bool True) \<and> getCryptoShim = d then 1 else 0) +
     (if prompts options = Some (Bool True) \<and> getPromptsShim = d then 1 else 0) +
     (if timers options = Some (Bool True) \<and> getTimersShim = d then 1 else 0) +
     (if undici options = Some (Bool True) \<and> getUndiciShim = d then 1 else 0) +
     count_list (suppliedShims (custom options)) d"
  by (simp only: shims_closed count_list_append count_distPart add.assoc)

lemma count_testShims:
  "count_list (testShims (shimOptionsToTransformShims options)) d =
     (if (denoValue (deno options) = Some (Bool True) \<or> denoValue (deno options) = Some Dev) \<and>
         denoDescriptor (deno options) = d then 1 else 0) +
     (if (blob options = Some (Bool True) \<or> blob options = Some Dev) \<and> getBlobShim = d
      then 1 else 0) +
     (if (crypto options = Some (Bool True) \<or> crypto options = Some Dev) \<and> getCryptoShim = d
      then 1 else 0) +
     (if (prompts options = Some (Bool True) \<or> prompts options = Some Dev) \<and> getPromptsShim = d
      then 1 else 0) +
     (if (timers options = Some (Bool True) \<or> timers options = Some Dev) \<and> getTimersShim = d
      then 1 else 0) +
     (if (undici options = Some (Bool True) \<or> undici options = Some Dev) \<and> getUndiciShim = d
      then 1 else 0) +
     count_list (suppliedShims (custom options)) d +
     count_list (suppliedShims (customDev options)) d"
  by (simp only: testShims_closed count_list_append count_testPart add.assoc)

lemma map_option_DenoValue_eq:
  "(map_option DenoValue x = Some (DenoValue v)) = (x = Some v)"
  by (cases x) simp_all

lemmas shim_count_simps =
  count_shims count_testShims denoDescriptor_simps denoValue_simps shim_eq_False package_names
  map_option_DenoValue_eq

text \<open>
  Claim C3, as stated, at \<^verbatim>\<open>{ blob: true, custom: [<the Blob shim>] }\<close>: the option
  is \<^verbatim>\<open>true\<close> and the Blob descriptor stands twice in each list, once from the
  capability and once from \<^verbatim>\<open>custom\<close>, which the source appends unfiltered.
\<close>

theorem C3_custom_repeats_descriptor:
  "capabilityOption (noShims\<lparr>blob := Some (Bool True), custom := Some [getBlobShim]\<rparr>) CapBlob
     = Some (DenoValue (Bool True)) \<and>
   count_list
     (shims (shimOptionsToTransformShims
        (noShims\<lparr>blob := Some (Bool True), custom := Some [getBlobShim]\<rparr>)))
     (descriptor CapBlob) = 2 \<and>
   count_list
     (testShims (shimOptionsToTransformShims
        (noShims\<lparr>blob := Some (Bool True), custom := Some [getBlobShim]\<rparr>)))
     (descriptor CapBlob) = 2"
  by (simp add: shim_count_simps noShims_def suppliedShims_def)

text \<open>
  Claim C3, amended. For every configuration and every capability, the capability's
  option contributes its descriptor exactly once to the distributed list and exactly
  once to the test list when it is \<^verbatim>\<open>true\<close>, exactly once to the test list and
  not to the distributed list when it is \<^verbatim>\<open>"dev"\<close>, and to neither list when it is
  \<^verbatim>\<open>false\<close> or absent (or, for \<^verbatim>\<open>deno\<close>, the object form). The only other
  occurrences of the descriptor are those the user wrote into \<^verbatim>\<open>custom\<close> (both
  lists) and \<^verbatim>\<open>customDev\<close> (test list): the number of occurrences is the
  capability's contribution plus the number of copies in those arrays.
\<close>

theorem C3_capability_contributes_once:
  "count_list (shims (shimOptionsToTransformShims options)) (descriptor cap) =
     (if capabilityOption options cap = Some (DenoValue (Bool True)) then 1 else 0) +
     count_list (suppliedShims (custom options)) (descriptor cap) \<and>
   count_list (testShims (shimOptionsToTransformShims options)) (descriptor cap) =
     (if capabilityOption options cap = Some (DenoValue (Bool True)) \<or>
         capabilityOption options cap = Some (DenoValue Dev) then 1 else 0) +
     count_list (suppliedShims (custom options)) (descriptor cap) +
     count_list (suppliedShims (customDev options)) (descriptor cap)"
proof (cases "deno options")
  case None
  then show ?thesis
    by (cases cap) (simp_all add: shim_count_simps)
next
  case (Some d)
  then show ?thesis
    by (cases d; cases cap) (simp_all add: shim_count_simps)
qed

text \<open>
  Claim C2, as stated, at \<^verbatim>\<open>{ deno: { test: true } }\<close>: the object form hands its
  \<^verbatim>\<open>test\<close> field to \<^verbatim>\<open>add\<close>, which pushes onto both arrays for \<^verbatim>\<open>true\<close>, so
  the test-registration descriptor stands in the distributed list. At
  \<^verbatim>\<open>{ deno: { test: false } }\<close> it stands in neither list.
\<close>

theorem C2_object_form_true_is_distributed:
  "getDenoTestShim \<in>
     set (shims (shimOptionsToTransformShims
       (noShims\<lparr>deno := Some (DenoObject (Bool True))\<rparr>))) \<and>
   getDenoTestShim \<notin>
     set (testShims (shimOptionsToTransformShims
       (noShims\<lparr>deno := Some (DenoObject (Bool False))\<rparr>)))"
  by (simp add: shims_closed testShims_closed denoDescriptor_simps denoValue_simps
      distPart_def testPart_def noShims_def suppliedShims_def)

text \<open>
  Claim C2, amended. For every configuration whose \<^verbatim>\<open>deno\<close> option is the object form
  \<^verbatim>\<open>{ test: t }\<close>, shim resolution uses the test-registration descriptor (package
  \<^verbatim>\<open>@deno/shim-deno-test\<close>) instead of the full-namespace descriptor, and the field
  \<^verbatim>\<open>t\<close> scopes it as any other shim value does: \<^verbatim>\<open>true\<close> puts it once into the
  distributed list and once into the test list, \<^verbatim>\<open>"dev"\<close> once into the test list
  only, \<^verbatim>\<open>false\<close> into neither. The full-namespace descriptor is contributed to
  neither list. (Occurrences beyond these are copies the user wrote into \<^verbatim>\<open>custom\<close>
  or \<^verbatim>\<open>customDev\<close>.)
\<close>

theorem C2_object_form_scoped_by_test_field:
  assumes "deno options = Some (DenoObject t)"
  shows
    "package_name (package getDenoTestShim) = ''@deno/shim-deno-test'' \<and>
     count_list (shims (shimOptionsToTransformShims options)) getDenoTestShim =
       (if t = Bool True then 1 else 0) +
       count_list (suppliedShims (custom options)) getDenoTestShim \<and>
     count_list (testShims (shimOptionsToTransformShims options)) getDenoTestShim =
       (if t = Bool True \<or> t = Dev then 1 else 0) +
       count_list (suppliedShims (custom options)) getDenoTestShim +
       count_list (suppliedShims (customDev options)) getDenoTestShim \<and>
     count_list (shims (shimOptionsToTransformShims options)) getDenoShim =
       count_list (suppliedShims (custom options)) getDenoShim \<and>
     count_list (testShims (shimOptionsToTransformShims options)) getDenoShim =
       count_list (suppliedShims (custom options)) getDenoShim +
       count_list (suppliedShims (customDev options)) getDenoShim"
  using assms by (simp add: shim_count_simps)

theorem C2_object_form_dev_witness:
  "deno (noShims\<lparr>deno := Some (DenoObject Dev), undici := Some (Bool True)\<rparr>)
     = Some (DenoObject Dev) \<and>
   shims (shimOptionsToTransformShims
     (noShims\<lparr>deno := Some (DenoObject Dev), undici := Some (Bool True)\<rparr>)) = [getUndiciShim] \<and>
   testShims (shimOptionsToTransformShims
     (noShims\<lparr>deno := Some (DenoObject Dev), undici := Some (Bool True)\<rparr>))
     = [getDenoTestShim, getUndiciShim] \<and>
   count_list (shims (shimOptionsToTransformShims
     (noShims\<lparr>deno := Some (DenoObject Dev), undici := Some (Bool True)\<rparr>))) getDenoTestShim = 0 \<and>
   count_list (testShims (shimOptionsToTransformShims
     (noShims\<lparr>deno := Some (DenoObject Dev), undici := Some (Bool True)\<rparr>))) getDenoTestShim = 1"
  using C2_object_form_scoped_by_test_field
    [of "noShims\<lparr>deno := Some (DenoObject Dev), undici := Some (Bool True)\<rparr>" Dev]
  by (simp add: shims_closed testShims_closed denoDescriptor_simps denoValue_simps
      distPart_def testPart_def noShims_def suppliedShims_def)

text \<open>
  Claim C10. For every configuration, every shim of the distributed list is a shim of
  the test list. More precisely the distributed list is a subsequence of the test list:
  the test list is the distributed list with the \<^verbatim>\<open>"dev"\<close> descriptors inserted at
  their places and \<^verbatim>\<open>customDev\<close> appended, every entry of the distributed list kept
  in its order and with its multiplicity.
\<close>

lemma subseq_distPart_testPart: "subseq (distPart option s) (testPart option s)"
  by (simp add: distPart_def testPart_def)

theorem C10_testShims_superset_of_shims:
  "set (shims (shimOptionsToTransformShims options))
     \<subseteq> set (testShims (shimOptionsToTransformShims options)) \<and>
   subseq (shims (shimOptionsToTransformShims options))
     (testShims (shimOptionsToTransformShims options))"
proof -
  have "subseq (shims (shimOptionsToTransformShims options))
     (testShims (shimOptionsToTransformShims options))"
    unfolding shims_closed testShims_closed
    by (intro list_emb_append_mono subseq_distPart_testPart list_emb_prefix) simp
  then show ?thesis
    by (auto elim: list_emb_set)
qed

section \<open>Properties of the test harness\<close>

text \<open>\<^verbatim>\<open>step\<close> begins with \<^verbatim>\<open>getDefinition()\<close>: its error rejects the step before any
  context is made, its definition is what the step runs.\<close>

lemma step_getDefinition:
  "step a this tr =
     (case getDefinition a of
        Inl e \<Rightarrow> (Inl e, this, tr)
      | Inr d \<Rightarrow> stepDefinition d this tr)"
  by (cases a) simp_all

lemma frame_refl: "frame c c"
  by (simp add: frame_def)

lemma frame_pushChild: "frame c (pushChild x c)"
  by (simp add: frame_def pushChild_def)

lemma frame_trans: "frame a b \<Longrightarrow> frame b c \<Longrightarrow> frame a c"
  by (simp add: frame_def)

lemma run_frame:
  "(\<forall>r c' tr'. runBody f c tr = (r, c', tr') \<longrightarrow> frame c c')"
  "(\<forall>r c' tr'. step a c tr = (r, c', tr') \<longrightarrow> frame c c')"
  "(\<forall>r c' tr'. stepDefinition d c tr = (r, c', tr') \<longrightarrow> frame c c')"
  "(\<forall>c' tr'. startStep a c tr = (c', tr') \<longrightarrow> frame c c')"
proof (induction f c tr and a c tr and d c tr and a c tr
    rule: runBody_step_stepDefinition_startStep.induct)
  case (1 this tr)
  then show ?case by (simp add: frame_refl)
next
  case (2 a rest this tr)
  then show ?case by (auto split: prod.splits sum.splits intro: frame_trans)
next
  case (3 a rest this tr)
  then show ?case by (auto split: prod.splits intro: frame_trans)
next
  case (9 n ign f this tr)
  then show ?case by (auto split: prod.splits simp: frame_pushChild)
qed (auto simp: frame_refl frame_pushChild)

lemma extends_refl: "extends tr tr"
  by (simp add: extends_def)

lemma extends_trans: "extends a b \<Longrightarrow> extends b c \<Longrightarrow> extends a c"
  by (auto simp: extends_def)

lemma extends_call: "\<not> ignored d \<Longrightarrow> extends tr (tr @ [Called d])"
  by (simp add: extends_def)

lemma extends_rejected: "extends tr (tr @ [Rejected e])"
  by (simp add: extends_def)

lemma extends_call': "extends (tr @ [Called d]) tr' \<Longrightarrow> \<not> ignored d \<Longrightarrow> extends tr tr'"
  by (auto simp: extends_def)

lemma run_extends:
  "(\<forall>r c' tr'. runBody f c tr = (r, c', tr') \<longrightarrow> extends tr tr')"
  "(\<forall>r c' tr'. step a c tr = (r, c', tr') \<longrightarrow> extends tr tr')"
  "(\<forall>r c' tr'. stepDefinition d c tr = (r, c', tr') \<longrightarrow> extends tr tr')"
  "(\<forall>c' tr'. startStep a c tr = (c', tr') \<longrightarrow> extends tr tr')"
proof (induction f c tr and a c tr and d c tr and a c tr
    rule: runBody_step_stepDefinition_startStep.induct)
  case (1 this tr)
  then show ?case by (simp add: extends_refl)
next
  case (2 a rest this tr)
  then show ?case by (auto split: prod.splits sum.splits intro: extends_trans)
next
  case (3 a rest this tr)
  then show ?case by (auto split: prod.splits intro: extends_trans)
next
  case (9 n ign f this tr)
  then show ?case by (auto split: prod.splits simp: extends_refl dest!: extends_call')
qed (auto simp: extends_refl extends_call extends_rejected)

text \<open>What a body does and leaves does not depend on the events recorded before it.\<close>

lemma run_trace:
  fixes tr :: "event list"
  shows
  "(\<forall>tr2 r c' ext. runBody f c [] = (r, c', ext) \<longrightarrow> runBody f c tr2 = (r, c', tr2 @ ext))"
  and "(\<forall>tr2 r c' ext. step a c [] = (r, c', ext) \<longrightarrow> step a c tr2 = (r, c', tr2 @ ext))"
  and "(\<forall>tr2 r c' ext. stepDefinition d c [] = (r, c', ext) \<longrightarrow>
      stepDefinition d c tr2 = (r, c', tr2 @ ext))"
  and "(\<forall>tr2 c' ext. startStep a c [] = (c', ext) \<longrightarrow> startStep a c tr2 = (c', tr2 @ ext))"
proof (induction f c tr and a c tr and d c tr and a c tr
    rule: runBody_step_stepDefinition_startStep.induct)
  case (1 this tr)
  then show ?case by simp
next
  case (2 a rest this tr)
  show ?case
  proof (intro allI impI)
    fix tr2 r c' ext
    assume run: "runBody (AwaitStep a # rest) this [] = (r, c', ext)"
    obtain r1 c1 e1 where s0: "step a this [] = (r1, c1, e1)"
      by (cases "step a this []") auto
    with "2.IH"(1) have s: "step a this tr0 = (r1, c1, tr0 @ e1)" for tr0
      by blast
    show "runBody (AwaitStep a # rest) this tr2 = (r, c', tr2 @ ext)"
    proof (cases r1)
      case (Inl e)
      with run s0 s[of tr2] show ?thesis by simp
    next
      case (Inr b)
      obtain r2 c2 e2 where b0: "runBody rest c1 [] = (r2, c2, e2)"
        by (cases "runBody rest c1 []") auto
      from "2.IH"(2)[OF s[of tr, symmetric] _ refl, of b] Inr b0
      have b: "runBody rest c1 tr0 = (r2, c2, tr0 @ e2)" for tr0
        by blast
      from run s0 Inr b[of e1] have "r = r2" "c' = c2" "ext = e1 @ e2"
        by simp_all
      with s[of tr2] Inr b[of "tr2 @ e1"] show ?thesis
        by simp
    qed
  qed
next
  case (3 a rest this tr)
  show ?case
  proof (intro allI impI)
    fix tr2 r c' ext
    assume run: "runBody (StartStep a # rest) this [] = (r, c', ext)"
    obtain c1 e1 where s0: "startStep a this [] = (c1, e1)"
      by (cases "startStep a this []") auto
    with "3.IH"(1) have s: "startStep a this tr0 = (c1, tr0 @ e1)" for tr0
      by blast
    obtain r2 c2 e2 where b0: "runBody rest c1 [] = (r2, c2, e2)"
      by (cases "runBody rest c1 []") auto
    from "3.IH"(2)[OF s[of tr, symmetric]] b0
    have b: "runBody rest c1 tr0 = (r2, c2, tr0 @ e2)" for tr0
      by blast
    from run s0 b[of e1] have "r = r2" "c' = c2" "ext = e1 @ e2"
      by simp_all
    with s[of tr2] b[of "tr2 @ e1"]
    show "runBody (StartStep a # rest) this tr2 = (r, c', tr2 @ ext)"
      by simp
  qed
next
  case (9 n ign f this tr)
  show ?case
  proof (cases ign)
    case True
    then show ?thesis by simp
  next
    case False
    obtain r2 c2 e2 where b0:
      "runBody f (newChild (Definition n ign f)) [] = (r2, c2, e2)"
      by (cases "runBody f (newChild (Definition n ign f)) []") auto
    from "9.IH"[OF False] b0
    have b: "runBody f (newChild (Definition n ign f)) tr0 = (r2, c2, tr0 @ e2)" for tr0
      by blast
    show ?thesis
      using False b[of "[Called (Definition n ign f)]"] b
      by (auto split: prod.splits)
  qed
qed auto

lemma verdict_run:
  assumes "runBody (fn d) getTestContext tr = (r, c, tr')"
  shows "verdict d =
     (case r of
        Returned \<Rightarrow>
          (if hasFailingChild c then Some (JsError ''Error'' ''Had failing test step.'') else None)
      | Threw e \<Rightarrow> Some e)"
proof -
  obtain r0 c0 e0 where b0: "runBody (fn d) getTestContext [] = (r0, c0, e0)"
    by (cases "runBody (fn d) getTestContext []") auto
  with run_trace(1) have "runBody (fn d) getTestContext tr = (r0, c0, tr @ e0)"
    by blast
  with assms have "r = r0" "c = c0"
    by simp_all
  with b0 show ?thesis
    by (simp add: verdict_def split: outcome.splits)
qed

lemma failuresOf_append: "failuresOf (xs @ ys) = failuresOf xs @ failuresOf ys"
  by (simp add: failuresOf_def)


lemma recorded_append: "recorded (xs @ ys) = recorded xs @ recorded ys"
  by (induction xs rule: recorded.induct) simp_all

lemma rejections_append: "rejections (xs @ ys) = rejections xs @ rejections ys"
  by (induction xs rule: rejections.induct) simp_all

lemma bodyEvent_drainEvent: "bodyEvent e \<Longrightarrow> drainEvent e"
  by (cases e) simp_all

lemma bodyEvents_recorded: "list_all bodyEvent ext \<Longrightarrow> recorded ext = []"
  by (induction ext rule: recorded.induct) simp_all


lemma bodyEvents_drainEvents: "list_all bodyEvent ext \<Longrightarrow> list_all drainEvent ext"
  by (induction ext) (simp_all add: bodyEvent_drainEvent)


lemma ranIn_mono: "ranIn seg d \<Longrightarrow> set seg \<subseteq> set seg' \<Longrightarrow> ranIn seg' d"
  by (auto simp: ranIn_def split: list.splits stmt.splits)

lemma liveCalls_append: "liveCalls (xs @ ys) = liveCalls xs @ liveCalls ys"
  by (simp add: liveCalls_def)

text \<open>One turn of the loop: what it adds to the events, and that it runs its
  definition to completion.\<close>

lemma runDefinition_spec:
  "testDefinitions (snd (runDefinition d s)) = testDefinitions (snd s) \<and>
   ended (snd (runDefinition d s)) = ended (snd s) \<and>
   moduleCache (snd (runDefinition d s)) = moduleCache (snd s) \<and>
   (\<exists>ext. events (snd (runDefinition d s)) = events (snd s) @ ext \<and>
      list_all drainEvent ext \<and>
      fst (runDefinition d s) = fst s @ recorded ext \<and>
      ranIn ext d \<and> subseq (liveCalls [d]) ext \<and> recorded ext = failuresOf [d])"
proof (cases s)
  case (Pair fs p)
  show ?thesis
  proof (cases "ignored d")
    case True
    then show ?thesis
      by (simp add: Pair runDefinition_def stdoutWrite_def ranIn_def liveCalls_def failuresOf_def)
  next
    case False
    obtain r c tr where run: "runBody (fn d) getTestContext (events p @ [Called d]) = (r, c, tr)"
      by (cases "runBody (fn d) getTestContext (events p @ [Called d])") auto
    with run_extends(1) have "extends (events p @ [Called d]) tr"
      by blast
    then obtain ext where ext: "tr = events p @ [Called d] @ ext" "list_all bodyEvent ext"
      by (auto simp: extends_def)
    from ext(2) have e2: "list_all drainEvent ext" "recorded ext = []"
      by (simp_all add: bodyEvents_drainEvents bodyEvents_recorded)
    have thrown: "r = Threw v" if "fn d = Throw v # rest" for v rest
      using run that by simp
    note v = verdict_run[OF run]
    show ?thesis
    proof (cases r)
      case Returned
      with thrown have nt: "\<And>v rest. fn d \<noteq> Throw v # rest"
        by auto
      then have ri: "\<And>seg. Called d \<in> set seg \<Longrightarrow> ranIn seg d"
        by (auto simp: ranIn_def split: list.splits stmt.splits)
      show ?thesis
      proof (cases "hasFailingChild c")
        case True
        with False run ext(1) e2 Returned show ?thesis
          by (intro conjI exI[of _ "[Called d] @ ext @
                [Recorded (definition_name d) (JsError ''Error'' ''Had failing test step.'')]"])
            (simp_all add: Pair runDefinition_def stdoutWrite_def Let_def recorded_append ri
              liveCalls_def failuresOf_def v)
      next
        case noFail: False
        with False run ext(1) e2 Returned show ?thesis
          by (intro conjI exI[of _ "[Called d] @ ext"])
            (simp_all add: Pair runDefinition_def stdoutWrite_def Let_def recorded_append ri
              liveCalls_def failuresOf_def v)
      qed
    next
      case (Threw e)
      have ri: "ranIn ([Called d] @ ext @ [Recorded (definition_name d) e]) d"
        using thrown Threw by (auto simp: ranIn_def split: list.splits stmt.splits)
      from False run ext(1) e2 Threw ri show ?thesis
        by (intro conjI exI[of _ "[Called d] @ ext @ [Recorded (definition_name d) e]"])
          (simp_all add: Pair runDefinition_def stdoutWrite_def Let_def recorded_append
            liveCalls_def failuresOf_def v)
    qed
  qed
qed

lemma runDefinitions_spec:
  "testDefinitions (snd (runDefinitions ds s)) = testDefinitions (snd s) \<and>
   ended (snd (runDefinitions ds s)) = ended (snd s) \<and>
   moduleCache (snd (runDefinitions ds s)) = moduleCache (snd s) \<and>
   (\<exists>ext. events (snd (runDefinitions ds s)) = events (snd s) @ ext \<and>
      list_all drainEvent ext \<and>
      fst (runDefinitions ds s) = fst s @ recorded ext \<and>
      list_all (ranIn ext) ds \<and> subseq (liveCalls ds) ext \<and>
      recorded ext = failuresOf ds \<and> (ds = [] \<longrightarrow> ext = []))"
proof (induction ds arbitrary: s)
  case Nil
  show ?case by (simp add: liveCalls_def failuresOf_def)
next
  case (Cons d ds)
  let ?s1 = "runDefinition d s"
  from runDefinition_spec[of d s] obtain ext1 where one:
    "testDefinitions (snd ?s1) = testDefinitions (snd s)"
    "ended (snd ?s1) = ended (snd s)"
    "moduleCache (snd ?s1) = moduleCache (snd s)"
    "events (snd ?s1) = events (snd s) @ ext1"
    "list_all drainEvent ext1"
    "fst ?s1 = fst s @ recorded ext1"
    "ranIn ext1 d" "subseq (liveCalls [d]) ext1" "recorded ext1 = failuresOf [d]"
    by blast
  from Cons.IH[of ?s1] obtain ext2 where rest:
    "testDefinitions (snd (runDefinitions ds ?s1)) = testDefinitions (snd ?s1)"
    "ended (snd (runDefinitions ds ?s1)) = ended (snd ?s1)"
    "moduleCache (snd (runDefinitions ds ?s1)) = moduleCache (snd ?s1)"
    "events (snd (runDefinitions ds ?s1)) = events (snd ?s1) @ ext2"
    "list_all drainEvent ext2"
    "fst (runDefinitions ds ?s1) = fst ?s1 @ recorded ext2"
    "list_all (ranIn ext2) ds" "subseq (liveCalls ds) ext2" "recorded ext2 = failuresOf ds"
    by blast
  have fo: "recorded (ext1 @ ext2) = failuresOf (d # ds)"
    using one(9) rest(9) failuresOf_append[of "[d]" ds] by (simp add: recorded_append)
  have sq: "subseq (liveCalls (d # ds)) (ext1 @ ext2)"
    using list_emb_append_mono[OF one(8) rest(8)] liveCalls_append[of "[d]" ds] by simp
  have r1: "ranIn (ext1 @ ext2) d"
    using one(7) by (rule ranIn_mono) simp
  have r2: "list_all (ranIn (ext1 @ ext2)) ds"
    using rest(7) by (auto simp: list_all_iff intro: ranIn_mono)
  show ?case
    using one(1-6) rest(1-6) r1 r2 sq fo
    by (intro conjI exI[of _ "ext1 @ ext2"]) (simp_all add: recorded_append)
qed

lemma logFailures_fields:
  "testDefinitions (logFailures fs p) = testDefinitions p \<and>
   events (logFailures fs p) = events p \<and>
   ended (logFailures fs p) = ended p \<and>
   moduleCache (logFailures fs p) = moduleCache p"
  by (induction fs arbitrary: p) (simp_all add: consoleLog_def)

lemma logFailures_stdout: "stdout (logFailures fs p) = stdout p @ failuresText fs"
  by (induction fs arbitrary: p) (simp_all add: consoleLog_def failuresText_def)

text \<open>A drain pass: it empties the queue, runs every definition that was in it,
  and ends the process, after printing the summary, exactly when it recorded a
  failure.\<close>

lemma runTestDefinitions_spec:
  "testDefinitions (runTestDefinitions p) = [] \<and>
   moduleCache (runTestDefinitions p) = moduleCache p \<and>
   (\<exists>ext. events (runTestDefinitions p) = events p @ ext \<and> list_all drainEvent ext \<and>
      list_all (ranIn ext) (testDefinitions p) \<and> subseq (liveCalls (testDefinitions p)) ext \<and>
      recorded ext = failuresOf (testDefinitions p) \<and> (testDefinitions p = [] \<longrightarrow> ext = []) \<and>
      ended (runTestDefinitions p) = (if recorded ext = [] then ended p else Some (Exit 1)) \<and>
      (recorded ext = [] \<or>
       (\<exists>out. stdout (runTestDefinitions p) =
          out @ [CHR 0x0A] @ ''FAILURES'' @ [CHR 0x0A] @ [CHR 0x0A] @ failuresText (recorded ext))))"
proof -
  let ?s = "([] :: failure list, p\<lparr>testDefinitions := []\<rparr>)"
  let ?r = "runDefinitions (testDefinitions p) ?s"
  from runDefinitions_spec[of "testDefinitions p" ?s] obtain ext where d:
    "testDefinitions (snd ?r) = []" "ended (snd ?r) = ended p"
    "moduleCache (snd ?r) = moduleCache p"
    "events (snd ?r) = events p @ ext" "list_all drainEvent ext"
    "fst ?r = recorded ext" "list_all (ranIn ext) (testDefinitions p)"
    "subseq (liveCalls (testDefinitions p)) ext"
    "recorded ext = failuresOf (testDefinitions p)" "testDefinitions p = [] \<longrightarrow> ext = []"
    by auto
  obtain fs p' where r: "?r = (fs, p')"
    by (cases ?r) auto
  show ?thesis
  proof (cases "recorded ext = []")
    case True
    with d r show ?thesis
      by (intro conjI exI[of _ ext]) (simp_all add: runTestDefinitions_def Let_def)
  next
    case False
    have out: "stdout (runTestDefinitions p) =
        stdout p' @ [CHR 0x0A] @ ''FAILURES'' @ [CHR 0x0A] @ [CHR 0x0A] @ failuresText (recorded ext)"
      using False d(6) r
      by (simp add: runTestDefinitions_def Let_def logFailures_stdout consoleLog_def)
    from False d r show ?thesis
      by (intro conjI exI[of _ ext] disjI2 exI[of _ "stdout p'"] out)
        (simp_all add: runTestDefinitions_def Let_def logFailures_fields consoleLog_def)
  qed
qed







lemma loadModule_fields:
  "events (loadModule modules path p) = events p @ [Loaded path] \<and>
   ended (loadModule modules path p) = ended p \<and>
   stdout (loadModule modules path p) = stdout p \<and>
   testDefinitions (loadModule modules path p) =
     testDefinitions p @ (if path \<in> set (moduleCache p) then [] else modules path) \<and>
   set (moduleCache (loadModule modules path p)) = insert path (set (moduleCache p))"
  by (auto simp: loadModule_def Let_def)

lemma reportRejections_fields:
  "events (reportRejections p) = events p \<and>
   stdout (reportRejections p) = stdout p \<and>
   testDefinitions (reportRejections p) = testDefinitions p \<and>
   moduleCache (reportRejections p) = moduleCache p"
  by (simp add: reportRejections_def split: list.splits)




lemma drainEvent_harnessEvent: "list_all drainEvent ext \<Longrightarrow> list_all harnessEvent ext"
proof (induction ext)
  case Nil
  show ?case by simp
next
  case (Cons e ext)
  then show ?case by (cases e) simp_all
qed




lemma getOutput_top_nonempty:
  "getOutput (Context JsUndefined s JsUndefined cs) \<noteq> []"
  by (simp add: Let_def)

lemma frame_getTestContext:
  "frame getTestContext c \<Longrightarrow> c = Context JsUndefined Ok JsUndefined (children c)"
  by (cases c) (simp add: frame_def getTestContext_def)

lemma frame_newChild:
  "frame (newChild d) c \<Longrightarrow> c = Context (JsString (definition_name d)) Pending JsUndefined (children c)"
  by (cases c) (simp add: frame_def newChild_def)

lemma hasFailingChild_iff:
  "hasFailingChild c = (\<exists>ch \<in> set (children c). status ch = Fail \<or> status ch = Pending)"
  by (simp add: hasFailingChild_def list_ex_iff)

lemma load_harnessEvents:
  assumes "list_all harnessEvent (events q)"
  shows "list_all harnessEvent (events (loadModule modules path q))"
    and "list_all harnessEvent (events (runTestDefinitions (loadModule modules path q)))"
proof -
  let ?p3 = "loadModule modules path q"
  have e3: "events ?p3 = events q @ [Loaded path]"
    using loadModule_fields[of modules path q] by simp
  with assms show "list_all harnessEvent (events ?p3)"
    by simp
  from runTestDefinitions_spec[of ?p3] obtain ext where
    "events (runTestDefinitions ?p3) = events ?p3 @ ext" "list_all drainEvent ext"
    by blast
  then show "list_all harnessEvent (events (runTestDefinitions ?p3))"
    using assms e3 by (simp add: drainEvent_harnessEvent)
qed

lemma runBuild_harnessEvents:
  assumes "list_all harnessEvent (events p)"
  shows "list_all harnessEvent (events (runBuild modules shimWasUsed report path p))"
proof (cases report)
  case True
  let ?q = "reportRejections
    (consoleLog ([CHR 0x0A] @ ''Running tests in '' @ path @ ''...'' @ [CHR 0x0A]) p)"
  have e2: "list_all harnessEvent (events ?q)"
    using assms by (simp add: reportRejections_fields consoleLog_def)
  show ?thesis
    using True e2 load_harnessEvents[OF e2, of modules path]
    by (simp add: runBuild_def Let_def)
next
  case False
  let ?q = "consoleLog ([CHR 0x0A] @ ''Running tests in '' @ path @ ''...'' @ [CHR 0x0A]) p"
  have e2: "list_all harnessEvent (events ?q)"
    using assms by (simp add: consoleLog_def)
  show ?thesis
    using False e2 load_harnessEvents[OF e2, of modules path]
    by (simp add: runBuild_def Let_def)
qed

lemma main_harnessEvents:
  "list_all harnessEvent (events p) \<Longrightarrow>
   list_all harnessEvent (events (main modules reports shimWasUsed filePaths p))"
proof (induction filePaths arbitrary: p)
  case Nil
  then show ?case by (simp add: reportRejections_fields)
next
  case (Cons filePath filePaths)
  then show ?case
    by (simp add: Let_def runBuild_harnessEvents)
qed

lemma harnessEvents_not_ignored:
  "list_all harnessEvent tr \<Longrightarrow> ignored d \<Longrightarrow> Called d \<notin> set tr"
  by (auto simp: list_all_iff)

text \<open>
  Claim C1. Let a test node that is not ignored be executed and let its body complete
  without throwing, leaving the context \<open>c\<close>. If a direct child of \<open>c\<close> has status
  \<^verbatim>\<open>fail\<close> or \<^verbatim>\<open>pending\<close> at that moment, the node is reported as failing: at the
  top level a failure \<^verbatim>\<open>Had failing test step.\<close> is pushed for it and \<^verbatim>\<open>fail\<close> is
  printed; in a step the stored status becomes \<^verbatim>\<open>fail\<close> and the step resolves to
  false. Otherwise the node is reported ok: at the top level no failure is pushed and
  \<^verbatim>\<open>ok\<close> is printed; in a step the stored status is \<^verbatim>\<open>ok\<close> and the step resolves
  to true.
\<close>

theorem C1_failing_or_pending_child_fails_node:
  assumes "\<not> ignored d"
  shows
    "(runBody (fn d) getTestContext (events p @ [Called d]) = (Returned, c, tr) \<longrightarrow>
        runDefinition d (testFailures, p) =
          (if \<exists>ch \<in> set (children c). status ch = Fail \<or> status ch = Pending
           then
             (testFailures @
                [\<lparr>failure_name = definition_name d,
                  failure_err = JsError ''Error'' ''Had failing test step.''\<rparr>],
              p\<lparr>stdout :=
                   stdout p @ definition_name d @ '' ...'' @ getOutput c @ ''fail'' @ [CHR 0x0A],
                 events :=
                   tr @ [Recorded (definition_name d)
                           (JsError ''Error'' ''Had failing test step.'')]\<rparr>)
           else
             (testFailures,
              p\<lparr>stdout :=
                   stdout p @ definition_name d @ '' ...'' @ getOutput c @ ''ok'' @ [CHR 0x0A],
                 events := tr\<rparr>))) \<and>
     (runBody (fn d) (newChild d) (tr0 @ [Called d]) = (Returned, c', tr') \<longrightarrow>
        step (DefinitionObject d) this tr0 =
          (if \<exists>ch \<in> set (children c'). status ch = Fail \<or> status ch = Pending
           then
             (Inr False,
              pushChild (Context (JsString (definition_name d)) Fail JsUndefined (children c')) this,
              tr')
           else
             (Inr True,
              pushChild (Context (JsString (definition_name d)) Ok JsUndefined (children c')) this,
              tr')))"
proof (intro conjI impI)
  assume run: "runBody (fn d) getTestContext (events p @ [Called d]) = (Returned, c, tr)"
  with run_frame(1) have "frame getTestContext c"
    by blast
  then have c: "c = Context JsUndefined Ok JsUndefined (children c)"
    by (rule frame_getTestContext)
  have ne: "getOutput c \<noteq> []"
    by (subst c) (rule getOutput_top_nonempty)
  show "runDefinition d (testFailures, p) =
          (if \<exists>ch \<in> set (children c). status ch = Fail \<or> status ch = Pending
           then
             (testFailures @
                [\<lparr>failure_name = definition_name d,
                  failure_err = JsError ''Error'' ''Had failing test step.''\<rparr>],
              p\<lparr>stdout :=
                   stdout p @ definition_name d @ '' ...'' @ getOutput c @ ''fail'' @ [CHR 0x0A],
                 events :=
                   tr @ [Recorded (definition_name d)
                           (JsError ''Error'' ''Had failing test step.'')]\<rparr>)
           else
             (testFailures,
              p\<lparr>stdout :=
                   stdout p @ definition_name d @ '' ...'' @ getOutput c @ ''ok'' @ [CHR 0x0A],
                 events := tr\<rparr>))"
    using assms run ne
    by (simp add: runDefinition_def stdoutWrite_def Let_def flip: hasFailingChild_iff)
next
  assume run: "runBody (fn d) (newChild d) (tr0 @ [Called d]) = (Returned, c', tr')"
  with run_frame(1) have f: "frame (newChild d) c'"
    by blast
  obtain n s e cs where c: "c' = Context n s e cs"
    by (cases c')
  with f have nse: "n = JsString (definition_name d)" "e = JsUndefined"
    by (simp_all add: frame_def newChild_def)
  have st: "step (DefinitionObject d) this tr0 =
      (case settleStep Returned c' of (b, c'') \<Rightarrow> (Inr b, pushChild c'' this, tr'))"
    using assms run by (cases d) simp
  show "step (DefinitionObject d) this tr0 =
          (if \<exists>ch \<in> set (children c'). status ch = Fail \<or> status ch = Pending
           then
             (Inr False,
              pushChild (Context (JsString (definition_name d)) Fail JsUndefined (children c')) this,
              tr')
           else
             (Inr True,
              pushChild (Context (JsString (definition_name d)) Ok JsUndefined (children c')) this,
              tr'))"
    unfolding st
    by (simp add: c nse settleStep_def setStatus_def hasFailingChild_def list_ex_iff Let_def)
qed

theorem C1_dangling_step_witness:
  "\<not> ignored (Definition ''dangling'' False [StartStep (NameAndFn ''slow'' [])]) \<and>
   runBody (fn (Definition ''dangling'' False [StartStep (NameAndFn ''slow'' [])])) getTestContext
     (events freshProcess @ [Called (Definition ''dangling'' False [StartStep (NameAndFn ''slow'' [])])]) =
     (Returned,
      Context JsUndefined Ok JsUndefined [Context (JsString ''slow'') Pending JsUndefined []],
      [Called (Definition ''dangling'' False [StartStep (NameAndFn ''slow'' [])]),
       Called (Definition ''slow'' False [])]) \<and>
   fst (runDefinition (Definition ''dangling'' False [StartStep (NameAndFn ''slow'' [])])
     ([], freshProcess)) =
     [\<lparr>failure_name = ''dangling'',
       failure_err = JsError ''Error'' ''Had failing test step.''\<rparr>] \<and>
   stdout (snd (runDefinition (Definition ''dangling'' False [StartStep (NameAndFn ''slow'' [])])
     ([], freshProcess))) =
     ''dangling ...'' @ [CHR 0x0A] @ ''  slow ... pending'' @ [CHR 0x0A] @ ''fail'' @ [CHR 0x0A] \<and>
   runBody (fn (Definition ''outer'' False [AwaitStep (NameAndFn ''inner'' [])]))
     (newChild (Definition ''outer'' False [AwaitStep (NameAndFn ''inner'' [])]))
     ([] @ [Called (Definition ''outer'' False [AwaitStep (NameAndFn ''inner'' [])])]) =
     (Returned,
      Context (JsString ''outer'') Pending JsUndefined [Context (JsString ''inner'') Ok JsUndefined []],
      [Called (Definition ''outer'' False [AwaitStep (NameAndFn ''inner'' [])]),
       Called (Definition ''inner'' False [])]) \<and>
   step (DefinitionObject (Definition ''outer'' False [AwaitStep (NameAndFn ''inner'' [])]))
     getTestContext [] =
     (Inr True,
      Context JsUndefined Ok JsUndefined
        [Context (JsString ''outer'') Ok JsUndefined [Context (JsString ''inner'') Ok JsUndefined []]],
      [Called (Definition ''outer'' False [AwaitStep (NameAndFn ''inner'' [])]),
       Called (Definition ''inner'' False [])])"
  using C1_failing_or_pending_child_fails_node
    [where d = "Definition ''dangling'' False [StartStep (NameAndFn ''slow'' [])]"
       and p = freshProcess and testFailures = "[]"
       and c = "Context JsUndefined Ok JsUndefined [Context (JsString ''slow'') Pending JsUndefined []]"
       and tr = "[Called (Definition ''dangling'' False [StartStep (NameAndFn ''slow'' [])]),
                  Called (Definition ''slow'' False [])]"]
    C1_failing_or_pending_child_fails_node
    [where d = "Definition ''outer'' False [AwaitStep (NameAndFn ''inner'' [])]"
       and ?tr0.0 = "[]" and this = getTestContext
       and c' = "Context (JsString ''outer'') Pending JsUndefined
                   [Context (JsString ''inner'') Ok JsUndefined []]"
       and tr' = "[Called (Definition ''outer'' False [AwaitStep (NameAndFn ''inner'' [])]),
                   Called (Definition ''inner'' False [])]"]
  by (simp add: freshProcess_def getTestContext_def newChild_def pushChild_def setStatus_def
      settleStep_def hasFailingChild_def indentText_def Let_def)

text \<open>
  Claim C9. For a definition whose \<^verbatim>\<open>ignored\<close> flag is set the function is never
  invoked. The top-level runner prints the name, \<^verbatim>\<open> ...\<close> and \<^verbatim>\<open> ignored\<close>, changes
  nothing else (no call, no failure) and goes on with the next definition. A step
  pushes a context with status \<^verbatim>\<open>ignored\<close> and resolves to false, with no call. And
  in a whole run of the launcher, whatever the modules register and however deep the
  steps nest, the record of events holds no call of an ignored definition.
\<close>

theorem C9_ignored_body_never_invoked:
  assumes "ignored d"
  shows
    "runDefinition d (testFailures, p) =
       (testFailures,
        p\<lparr>stdout := stdout p @ (definition_name d @ '' ...'') @ '' ignored'' @ [CHR 0x0A]\<rparr>) \<and>
     runDefinitions (d # ds) (testFailures, p) =
       runDefinitions ds
         (testFailures,
          p\<lparr>stdout := stdout p @ (definition_name d @ '' ...'') @ '' ignored'' @ [CHR 0x0A]\<rparr>) \<and>
     step (DefinitionObject d) this tr =
       (Inr False,
        pushChild (Context (JsString (definition_name d)) Ignored JsUndefined []) this,
        tr) \<and>
     Called d \<notin> set (events (main modules reports shimWasUsed filePaths freshProcess))"
proof -
  have one: "runDefinition d (testFailures, p) =
       (testFailures,
        p\<lparr>stdout := stdout p @ (definition_name d @ '' ...'') @ '' ignored'' @ [CHR 0x0A]\<rparr>)"
    using assms by (simp add: runDefinition_def stdoutWrite_def)
  have stp: "step (DefinitionObject d) this tr =
       (Inr False,
        pushChild (Context (JsString (definition_name d)) Ignored JsUndefined []) this,
        tr)"
    using assms by (cases d) (simp add: newChild_def setStatus_def)
  have "list_all harnessEvent (events (main modules reports shimWasUsed filePaths freshProcess))"
    by (rule main_harnessEvents) (simp add: freshProcess_def)
  then have never: "Called d \<notin> set (events (main modules reports shimWasUsed filePaths freshProcess))"
    using assms by (rule harnessEvents_not_ignored)
  from one stp never show ?thesis
    by simp
qed

theorem C9_skipped_definition_witness:
  "ignored (Definition ''skipped'' True [Throw (JsString ''never'')]) \<and>
   runDefinition (Definition ''skipped'' True [Throw (JsString ''never'')]) ([], freshProcess) =
     ([], freshProcess\<lparr>stdout := ''skipped ... ignored'' @ [CHR 0x0A]\<rparr>) \<and>
   step (DefinitionObject (Definition ''skipped'' True [Throw (JsString ''never'')]))
     getTestContext [] =
     (Inr False,
      Context JsUndefined Ok JsUndefined [Context (JsString ''skipped'') Ignored JsUndefined []],
      []) \<and>
   events (main
     (\<lambda>path. [Definition ''skipped'' True [Throw (JsString ''never'')],
              Definition ''outer'' False
                [AwaitStep (DefinitionObject (Definition ''skipped'' True [Throw (JsString ''never'')]))]])
     (\<lambda>path. True) True [''mod.js''] freshProcess) =
     [Loaded ''./cjs/mod.js'',
      Called (Definition ''outer'' False
        [AwaitStep (DefinitionObject (Definition ''skipped'' True [Throw (JsString ''never'')]))]),
      Loaded ''./esm/mod.js'',
      Called (Definition ''outer'' False
        [AwaitStep (DefinitionObject (Definition ''skipped'' True [Throw (JsString ''never'')]))])]"
  using C9_ignored_body_never_invoked
    [where d = "Definition ''skipped'' True [Throw (JsString ''never'')]"
       and testFailures = "[]" and p = freshProcess and ds = "[]" and this = getTestContext
       and tr = "[]" and shimWasUsed = True and reports = "\<lambda>path. True" and filePaths = "[''mod.js'']"
       and modules = "\<lambda>path. [Definition ''skipped'' True [Throw (JsString ''never'')],
              Definition ''outer'' False
                [AwaitStep (DefinitionObject (Definition ''skipped'' True [Throw (JsString ''never'')]))]]"]
  by (simp add: Let_def runBuild_def loadModule_def runTestDefinitions_def runDefinition_def
      reportRejections_def consoleLog_def stdoutWrite_def freshProcess_def getTestContext_def hasFailingChild_def
      newChild_def pushChild_def setStatus_def settleStep_def)






section \<open>Properties of the package manifest\<close>

lemma keys_setExisting: "map fst (setExisting k v obj) = map fst obj"
  by (induction obj) auto

lemma map_of_setExisting:
  "k \<in> fst ` set obj \<Longrightarrow> map_of (setExisting k v obj) = (map_of obj)(k \<mapsto> v)"
proof (induction obj)
  case Nil
  then show ?case by simp
next
  case (Cons e obj)
  obtain k' v' where e: "e = (k', v')" by (cases e)
  show ?case
  proof (cases "k' = k")
    case True
    then show ?thesis by (auto simp: e fun_eq_iff)
  next
    case False
    with Cons.prems have "k \<in> fst ` set obj" by (auto simp: e)
    with Cons.IH False show ?thesis by (auto simp: e fun_eq_iff)
  qed
qed

lemma keys_insertIndex': "set (map fst (insertIndex i k v obj)) = insert k (set (map fst obj))"
  by (induction i k v obj rule: insertIndex.induct) (simp_all add: insert_commute)

lemma keys_insertIndex: "fst ` set (insertIndex i k v obj) = insert k (fst ` set obj)"
  using keys_insertIndex'[of i k v obj] by simp

lemma distinct_insertIndex:
  "distinct (map fst obj) \<Longrightarrow> k \<notin> fst ` set obj \<Longrightarrow>
   distinct (map fst (insertIndex i k v obj))"
  by (induction obj) (auto simp: keys_insertIndex)

lemma map_of_insertIndex:
  "k \<notin> fst ` set obj \<Longrightarrow> map_of (insertIndex i k v obj) = (map_of obj)(k \<mapsto> v)"
proof (induction obj)
  case Nil
  then show ?case by simp
next
  case (Cons e obj)
  obtain k' v' where e: "e = (k', v')" by (cases e)
  from Cons.prems have "k' \<noteq> k" "k \<notin> fst ` set obj" by (auto simp: e)
  with Cons.IH show ?case by (auto simp: e fun_eq_iff)
qed

lemma single_map_add: "m k = None \<Longrightarrow> [k \<mapsto> v] ++ m = m(k \<mapsto> v)"
  by (auto simp: fun_eq_iff map_add_def split: option.splits)

lemma map_of_snoc:
  assumes "k \<notin> fst ` set obj"
  shows "map_of (obj @ [(k, v)]) = (map_of obj)(k \<mapsto> v)"
proof -
  from assms have "map_of obj k = None"
    by (simp add: map_of_eq_None_iff)
  then have "[k \<mapsto> v] ++ map_of obj = (map_of obj)(k \<mapsto> v)"
    by (rule single_map_add)
  then show ?thesis
    by simp
qed

lemma keys_objSet: "fst ` set (objSet obj k v) = insert k (fst ` set obj)"
proof -
  have "fst ` set (setExisting k v obj) = fst ` set obj"
    using keys_setExisting[of k v obj] by (metis set_map)
  then show ?thesis
    by (auto simp: objSet_def keys_insertIndex)
qed

lemma distinct_objSet: "distinct (map fst obj) \<Longrightarrow> distinct (map fst (objSet obj k v))"
  by (simp add: objSet_def keys_setExisting distinct_insertIndex)

lemma map_of_objSet: "map_of (objSet obj k v) = (map_of obj)(k \<mapsto> v)"
proof (cases "k \<in> fst ` set obj")
  case True
  then show ?thesis
    by (simp add: objSet_def map_of_setExisting)
next
  case False
  show ?thesis
  proof (cases "isArrayIndex k")
    case True
    with False show ?thesis
      by (simp add: objSet_def map_of_insertIndex)
  next
    case notIndex: False
    have "objSet obj k v = obj @ [(k, v)]"
      using False notIndex by (simp add: objSet_def)
    then show ?thesis
      by (simp only: map_of_snoc[OF False])
  qed
qed

lemma entriesMap_Cons: "entriesMap ((k, v) # es) = [k \<mapsto> v] ++ entriesMap es"
  by (simp add: entriesMap_def)

lemma entriesMap_Nil: "entriesMap [] = Map.empty"
  by (simp add: entriesMap_def)

lemma spread_Cons: "spread target ((k, v) # es) = spread (objSet target k v) es"
  by (simp add: spread_def)

lemma spread_Nil: "spread target [] = target"
  by (simp add: spread_def)

lemma map_of_spread: "map_of (spread target es) = map_of target ++ entriesMap es"
proof (induction es arbitrary: target)
  case Nil
  show ?case by (simp add: spread_Nil entriesMap_Nil)
next
  case (Cons e es)
  obtain k v where e: "e = (k, v)" by (cases e)
  have "map_of (spread target (e # es)) = map_of (objSet target k v) ++ entriesMap es"
    unfolding e spread_Cons by (rule Cons.IH)
  also have "\<dots> = (map_of target)(k \<mapsto> v) ++ entriesMap es"
    by (simp only: map_of_objSet)
  also have "\<dots> = (map_of target ++ [k \<mapsto> v]) ++ entriesMap es"
    by simp
  also have "\<dots> = map_of target ++ entriesMap (e # es)"
    by (simp only: e entriesMap_Cons map_add_assoc)
  finally show ?case .
qed

lemma keys_spread: "fst ` set (spread target es) = fst ` set target \<union> fst ` set es"
proof (induction es arbitrary: target)
  case Nil
  show ?case by (simp add: spread_Nil)
next
  case (Cons e es)
  obtain k v where e: "e = (k, v)" by (cases e)
  show ?case
    using Cons.IH[of "objSet target k v"] by (auto simp: e spread_Cons keys_objSet)
qed

lemma distinct_spread: "distinct (map fst target) \<Longrightarrow> distinct (map fst (spread target es))"
proof (induction es arbitrary: target)
  case Nil
  then show ?case by (simp add: spread_Nil)
next
  case (Cons e es)
  obtain k v where e: "e = (k, v)" by (cases e)
  show ?case
    using Cons.IH[of "objSet target k v"] Cons.prems by (simp add: e spread_Cons distinct_objSet)
qed

lemma entriesMap_distinct: "distinct (map fst obj) \<Longrightarrow> entriesMap obj = map_of obj"
  unfolding entriesMap_def
proof (induction obj)
  case Nil
  show ?case by simp
next
  case (Cons e obj)
  obtain k v where e: "e = (k, v)" by (cases e)
  from Cons.prems have k: "map_of obj k = None"
    by (simp add: e map_of_eq_None_iff)
  have "map_of (rev (e # obj)) = [k \<mapsto> v] ++ map_of (rev obj)"
    by (simp add: e)
  also have "\<dots> = [k \<mapsto> v] ++ map_of obj"
    using Cons by simp
  also have "\<dots> = map_of (e # obj)"
    using k by (simp add: e single_map_add)
  finally show ?case .
qed


lemma distinct_fromEntries: "distinct (map fst (fromEntries es))"
  by (simp add: fromEntries_def distinct_spread)

lemma map_of_fromEntries: "map_of (fromEntries es) = entriesMap es"
  by (simp add: fromEntries_def map_of_spread)

lemma entriesMap_fromEntries: "entriesMap (fromEntries es) = entriesMap es"
  by (simp add: entriesMap_distinct distinct_fromEntries map_of_fromEntries)

lemma keys_fromEntries: "fst ` set (fromEntries es) = fst ` set es"
  by (simp add: fromEntries_def keys_spread)

lemma entriesMap_spread:
  "distinct (map fst target) \<Longrightarrow> entriesMap (spread target es) = entriesMap target ++ entriesMap es"
  by (simp add: entriesMap_distinct distinct_spread map_of_spread)

lemma entriesMap_objSet:
  "distinct (map fst obj) \<Longrightarrow> entriesMap (objSet obj k v) = (entriesMap obj)(k \<mapsto> v)"
  by (simp add: entriesMap_distinct distinct_objSet map_of_objSet)

lemma getProp_objSet:
  "distinct (map fst obj) \<Longrightarrow>
   getProp (JObject (objSet obj k v)) k' = (if k' = k then v else getProp (JObject obj) k')"
  by (simp add: entriesMap_objSet)

lemma distinct_dependenciesObject: "distinct (map fst (dependenciesObject env))"
  by (simp add: dependenciesObject_def Let_def distinct_spread)

lemma entriesMap_dependenciesObject:
  "entriesMap (dependenciesObject env) =
     entriesMap (dependencyEntries (dependencies (transformOutput env))) ++
     (case specifierMappings env of
        None \<Rightarrow> Map.empty
      | Some ms \<Rightarrow> entriesMap (mappingEntries ms)) ++
     (if shimUsed (transformOutput env) then entriesMap (shimEntry (shimPackage env))
      else Map.empty) ++
     entriesMap
       (ownEntries
          (coalesce (getProp (JObject (options_package env)) ''dependencies'') (JObject [])))"
proof -
  have "entriesMap (dependenciesObject env) = map_of (dependenciesObject env)"
    by (rule entriesMap_distinct) (rule distinct_dependenciesObject)
  also have "\<dots> =
     entriesMap (dependencyEntries (dependencies (transformOutput env))) ++
     entriesMap (case specifierMappings env of None \<Rightarrow> [] | Some ms \<Rightarrow> fromEntries (mappingEntries ms)) ++
     entriesMap (if shimUsed (transformOutput env) then shimEntry (shimPackage env) else []) ++
     entriesMap
       (ownEntries
          (coalesce (getProp (JObject (options_package env)) ''dependencies'') (JObject [])))"
    by (simp add: dependenciesObject_def Let_def map_of_spread entriesMap_fromEntries
        entriesMap_Nil)
  also have "entriesMap (case specifierMappings env of None \<Rightarrow> [] | Some ms \<Rightarrow> fromEntries (mappingEntries ms)) =
     (case specifierMappings env of None \<Rightarrow> Map.empty | Some ms \<Rightarrow> entriesMap (mappingEntries ms))"
    by (simp add: entriesMap_Nil entriesMap_fromEntries split: option.splits)
  also have "entriesMap (if shimUsed (transformOutput env) then shimEntry (shimPackage env) else []) =
     (if shimUsed (transformOutput env) then entriesMap (shimEntry (shimPackage env)) else Map.empty)"
    by (simp add: entriesMap_Nil)
  finally show ?thesis .
qed

lemma packageJsonObj_fields:
  assumes "entryPoints (transformOutput env) = first # rest"
  shows "\<exists>obj. packageJsonObj env = Inr obj \<and>
     getProp (JObject obj) ''module'' =
       coalesce (getProp (JObject (options_package env)) ''module'')
         (JString (''./esm/'' @ replaceTs True ''.js'' first)) \<and>
     getProp (JObject obj) ''main'' =
       coalesce (getProp (JObject (options_package env)) ''main'')
         (JString (''./cjs/'' @ replaceTs True ''.js'' first)) \<and>
     getProp (JObject obj) ''types'' =
       coalesce (getProp (JObject (options_package env)) ''types'')
         (JString (''./types/'' @ replaceTs True ''.d.ts'' first)) \<and>
     getProp (JObject obj) ''exports'' =
       JObject (exportsObject (options_package env) (replaceTs True ''.js'' first)
         (replaceTs True ''.d.ts'' first)) \<and>
     getProp (JObject obj) ''scripts'' = scriptsValue env \<and>
     getProp (JObject obj) ''dependencies'' = JObject (dependenciesObject env) \<and>
     getProp (JObject obj) ''devDependencies'' = devDependenciesValue env"
  unfolding packageJsonObj_def
  by (simp add: assms Let_def getProp_objSet distinct_objSet distinct_spread del: getProp.simps)

lemma getProp_exportsObject_dot:
  "getProp (JObject (exportsObject pkg p d)) ''.'' = JObject (dotExport pkg p d)"
  by (simp add: exportsObject_def getProp_objSet distinct_spread del: getProp.simps)

lemma entriesMap_dotExport:
  "entriesMap (dotExport pkg p d) =
     [''import'' \<mapsto> JString (''./esm/'' @ p),
      ''require'' \<mapsto> JString (''./cjs/'' @ p),
      ''types'' \<mapsto> coalesce (getProp (JObject pkg) ''types'') (JString (''./types/'' @ d))] ++
     entriesMap (ownEntries (coalesce (getProp (getProp (JObject pkg) ''exports'') ''.'') (JObject [])))"
proof -
  have "entriesMap
      [(''import'', JString (''./esm/'' @ p)), (''require'', JString (''./cjs/'' @ p)),
       (''types'', coalesce (getProp (JObject pkg) ''types'') (JString (''./types/'' @ d)))] =
     [''import'' \<mapsto> JString (''./esm/'' @ p),
      ''require'' \<mapsto> JString (''./cjs/'' @ p),
      ''types'' \<mapsto> coalesce (getProp (JObject pkg) ''types'') (JString (''./types/'' @ d))]"
    by (auto simp: entriesMap_def fun_eq_iff simp del: getProp.simps)
  then show ?thesis
    by (simp add: dotExport_def entriesMap_spread del: getProp.simps)
qed


lemma mappingEntries_versions:
  "mappingEntries ms =
     map (\<lambda>m. (mapping_name m, JString (the (mapping_version m))))
       (filter (\<lambda>m. mapping_version m \<noteq> None \<and> mapping_version m \<noteq> Some [])
          (map snd ms))"
proof -
  have h: "hasVersion = (\<lambda>m. mapping_version m \<noteq> None \<and> mapping_version m \<noteq> Some [])"
    by (auto simp: hasVersion_def fun_eq_iff split: option.splits)
  show ?thesis
    unfolding mappingEntries_def h
    by (rule map_cong) auto
qed

lemma devDependenciesValue_Some:
  assumes "testOutput env = Some t"
  shows "\<exists>dev. devDependenciesValue env = JObject dev \<and>
     fst ` set dev =
       dependency_name ` set (dependencies t) \<union>
       (if shimUsed t \<and> shimPackage_name (shimPackage env) \<notin> fst ` set (dependenciesObject env)
        then {shimPackage_name (shimPackage env)} else {}) \<union>
       fst ` set (ownEntries
         (coalesce (getProp (JObject (options_package env)) ''devDependencies'') (JObject [])))"
  using assms
  by (auto simp: devDependenciesValue_def Let_def keys_spread keys_fromEntries
      dependencyEntries_def shimEntry_def image_image simp del: getProp.simps)

lemma createPackageJson_writes:
  "map_sum id (\<lambda>s. drop (length (writeCalls sink)) (writeCalls s)) (createPackageJson env sink) =
   map_sum id
     (\<lambda>obj. [(path_join env (options_outDir env) ''package.json'',
              case stringify (JObject obj) of None \<Rightarrow> ''undefined'' | Some text \<Rightarrow> text)])
     (packageJsonObj env)"
  by (cases "packageJsonObj env") (simp_all add: createPackageJson_def writeFile_def Let_def)

lemma distinct_packageJsonObj:
  "packageJsonObj env = Inr obj \<Longrightarrow> distinct (map fst obj)"
  by (auto simp: packageJsonObj_def Let_def distinct_objSet distinct_spread split: list.splits)

lemma map_of_packageJsonObj_dependencies:
  "packageJsonObj env = Inr obj \<Longrightarrow>
   map_of obj ''dependencies'' = Some (JObject (dependenciesObject env))"
  by (auto simp: packageJsonObj_def Let_def map_of_objSet split: list.splits)

lemma entriesMap_template_dependencies:
  "entriesMap (ownEntries (coalesce (getProp (JObject pkg) ''dependencies'') (JObject []))) =
     (case map_of (rev pkg) ''dependencies'' of
        None \<Rightarrow> Map.empty
      | Some (JObject ps) \<Rightarrow> map_of (rev ps)
      | Some v \<Rightarrow> map_of (rev (ownEntries v)))"
  by (simp add: entriesMap_def coalesce_def split: option.splits json.splits)

text \<open>
  Claim C4. The \<^verbatim>\<open>dependencies\<close> object of the generated manifest is the merge, a later
  part overriding an earlier one on a name they share, of (1) the dependencies of the
  transform output, each under its name with its version, (2) the specifier mappings
  that declare a version (a version that is present and not the empty string: the
  source keeps the mappings whose \<^verbatim>\<open>version\<close> is truthy), each under its name with
  its version, (3) the shim package under its name with its version, only when the
  transform of the distributed code reported the shim as used, and (4) the entries of
  the \<^verbatim>\<open>dependencies\<close> of the package template (those of the object; were the
  value no object, what spreading it gives: the indexed entries of an array or a
  string, nothing for any other value). Within a part a later entry of the same
  name overrides an earlier one. The object has each name once, and the
  manifest holds it under \<^verbatim>\<open>dependencies\<close>, once, whenever a manifest is produced,
  that is unless the transform output has no entry point.
\<close>

theorem C4_dependencies_merge_later_wins:
  "distinct (map fst (dependenciesObject env)) \<and>
   map_of (dependenciesObject env) =
     map_of (rev (map (\<lambda>d. (dependency_name d, JString (dependency_version d)))
                    (dependencies (transformOutput env)))) ++
     (case specifierMappings env of
        None \<Rightarrow> Map.empty
      | Some ms \<Rightarrow>
          map_of (rev
            (map (\<lambda>m. (mapping_name m, JString (the (mapping_version m))))
               (filter (\<lambda>m. mapping_version m \<noteq> None \<and> mapping_version m \<noteq> Some [])
                  (map snd ms))))) ++
     (if shimUsed (transformOutput env)
      then [shimPackage_name (shimPackage env) \<mapsto> JString (shimPackage_version (shimPackage env))]
      else Map.empty) ++
     (case map_of (rev (options_package env)) ''dependencies'' of
        None \<Rightarrow> Map.empty
      | Some (JObject ps) \<Rightarrow> map_of (rev ps)
      | Some v \<Rightarrow> map_of (rev (ownEntries v))) \<and>
   (case packageJsonObj env of
      Inl e \<Rightarrow> entryPoints (transformOutput env) = []
    | Inr obj \<Rightarrow>
        distinct (map fst obj) \<and>
        map_of obj ''dependencies'' = Some (JObject (dependenciesObject env)))"
proof (intro conjI)
  show "distinct (map fst (dependenciesObject env))"
    by (rule distinct_dependenciesObject)
next
  have s: "entriesMap (shimEntry (shimPackage env)) =
      [shimPackage_name (shimPackage env) \<mapsto> JString (shimPackage_version (shimPackage env))]"
    by (simp add: shimEntry_def entriesMap_def)
  have d: "entriesMap (dependencyEntries (dependencies (transformOutput env))) =
      map_of (rev (map (\<lambda>d. (dependency_name d, JString (dependency_version d)))
                    (dependencies (transformOutput env))))"
    by (simp only: dependencyEntries_def entriesMap_def)
  have m: "(case specifierMappings env of
        None \<Rightarrow> Map.empty
      | Some ms \<Rightarrow> entriesMap (mappingEntries ms)) =
      (case specifierMappings env of
        None \<Rightarrow> Map.empty
      | Some ms \<Rightarrow>
          map_of (rev
            (map (\<lambda>m. (mapping_name m, JString (the (mapping_version m))))
               (filter (\<lambda>m. mapping_version m \<noteq> None \<and> mapping_version m \<noteq> Some [])
                  (map snd ms)))))"
    by (simp only: mappingEntries_versions entriesMap_def)
  have "map_of (dependenciesObject env) = entriesMap (dependenciesObject env)"
    by (rule entriesMap_distinct[symmetric]) (rule distinct_dependenciesObject)
  then show "map_of (dependenciesObject env) =
     map_of (rev (map (\<lambda>d. (dependency_name d, JString (dependency_version d)))
                    (dependencies (transformOutput env)))) ++
     (case specifierMappings env of
        None \<Rightarrow> Map.empty
      | Some ms \<Rightarrow>
          map_of (rev
            (map (\<lambda>m. (mapping_name m, JString (the (mapping_version m))))
               (filter (\<lambda>m. mapping_version m \<noteq> None \<and> mapping_version m \<noteq> Some [])
                  (map snd ms))))) ++
     (if shimUsed (transformOutput env)
      then [shimPackage_name (shimPackage env) \<mapsto> JString (shimPackage_version (shimPackage env))]
      else Map.empty) ++
     (case map_of (rev (options_package env)) ''dependencies'' of
        None \<Rightarrow> Map.empty
      | Some (JObject ps) \<Rightarrow> map_of (rev ps)
      | Some v \<Rightarrow> map_of (rev (ownEntries v)))"
    by (simp only: entriesMap_dependenciesObject s d m entriesMap_template_dependencies)
next
  show "case packageJsonObj env of
      Inl e \<Rightarrow> entryPoints (transformOutput env) = []
    | Inr obj \<Rightarrow>
        distinct (map fst obj) \<and>
        map_of obj ''dependencies'' = Some (JObject (dependenciesObject env))"
  proof (cases "packageJsonObj env")
    case (Inl e)
    then show ?thesis
      by (simp add: packageJsonObj_def Let_def split: list.splits)
  next
    case (Inr obj)
    then show ?thesis
      by (simp add: distinct_packageJsonObj map_of_packageJsonObj_dependencies)
  qed
qed

theorem C4_colliding_sources_witness:
  "dependenciesObject mergeEnv =
     [(''a'', JString ''1.5.0''), (''b'', JString ''9.9.9''), (''c'', JString ''3.0.0''),
      (''deno.ns'', JString ''0.5.0'')] \<and>
   map_of (dependenciesObject mergeEnv) =
     [''a'' \<mapsto> JString ''1.0.0'', ''b'' \<mapsto> JString ''2.0.0''] ++
     [''c'' \<mapsto> JString ''3.0.0'', ''a'' \<mapsto> JString ''1.5.0''] ++
     [''deno.ns'' \<mapsto> JString ''0.5.0''] ++
     [''b'' \<mapsto> JString ''9.9.9''] \<and>
   (\<exists>obj. packageJsonObj mergeEnv = Inr obj \<and> distinct (map fst obj) \<and>
      map_of obj ''dependencies'' =
        Some (JObject
          [(''a'', JString ''1.5.0''), (''b'', JString ''9.9.9''), (''c'', JString ''3.0.0''),
           (''deno.ns'', JString ''0.5.0'')]))"
proof -
  have o: "dependenciesObject mergeEnv =
     [(''a'', JString ''1.5.0''), (''b'', JString ''9.9.9''), (''c'', JString ''3.0.0''),
      (''deno.ns'', JString ''0.5.0'')]"
    by code_simp
  have e: "entryPoints (transformOutput mergeEnv) \<noteq> []"
    by (simp add: mergeEnv_def)
  note merge = C4_dependencies_merge_later_wins[of mergeEnv]
  have m: "map_of (dependenciesObject mergeEnv) =
     [''a'' \<mapsto> JString ''1.0.0'', ''b'' \<mapsto> JString ''2.0.0''] ++
     [''c'' \<mapsto> JString ''3.0.0'', ''a'' \<mapsto> JString ''1.5.0''] ++
     [''deno.ns'' \<mapsto> JString ''0.5.0''] ++
     [''b'' \<mapsto> JString ''9.9.9'']"
    using merge[THEN conjunct2, THEN conjunct1]
    by (simp add: mergeEnv_def plainEnv_def resolveShimPackage_def)
  have p: "\<exists>obj. packageJsonObj mergeEnv = Inr obj \<and> distinct (map fst obj) \<and>
      map_of obj ''dependencies'' = Some (JObject (dependenciesObject mergeEnv))"
    using merge[THEN conjunct2, THEN conjunct2] e
    by (cases "packageJsonObj mergeEnv") simp_all
  from o m p show ?thesis
    by (simp only: simp_thms)
qed

text \<open>
  Claim C5, as stated, for a template whose \<^verbatim>\<open>exports\<close> is
  \<^verbatim>\<open>{ ".": { import: "./custom.mjs" } }\<close> and the entry point \<^verbatim>\<open>mod.ts\<close>: the
  \<^verbatim>\<open>"."\<close> entry of the manifest is not the user's, the defaults \<^verbatim>\<open>require\<close> and
  \<^verbatim>\<open>types\<close> are merged into it.
\<close>

theorem C5_exports_dot_is_merged:
  "getProp (getProp (JObject (options_package
      (plainEnv\<lparr>options_package :=
         [(''name'', JString ''pkg''),
          (''exports'', JObject [(''.'', JObject [(''import'', JString ''./custom.mjs'')])])]\<rparr>)))
      ''exports'') ''.'' = JObject [(''import'', JString ''./custom.mjs'')] \<and>
   map_sum id (\<lambda>obj. getProp (getProp (JObject obj) ''exports'') ''.'')
     (packageJsonObj
       (plainEnv\<lparr>options_package :=
         [(''name'', JString ''pkg''),
          (''exports'', JObject [(''.'', JObject [(''import'', JString ''./custom.mjs'')])])]\<rparr>)) =
     Inr (JObject
       [(''import'', JString ''./custom.mjs''),
        (''require'', JString ''./cjs/mod.js''),
        (''types'', JString ''./types/mod.d.ts'')])"
  by code_simp

text \<open>
  Claim C5, amended. When the transform output has a first entry point, the fields
  \<^verbatim>\<open>main\<close>, \<^verbatim>\<open>module\<close> and \<^verbatim>\<open>types\<close> of the manifest are the template's field where
  the template supplies one (a value other than \<^verbatim>\<open>undefined\<close> and \<^verbatim>\<open>null\<close>), as a
  whole, and otherwise the path under \<^verbatim>\<open>./cjs\<close>, \<^verbatim>\<open>./esm\<close>, \<^verbatim>\<open>./types\<close> derived from
  the first entry point with a final \<^verbatim>\<open>.ts\<close> (in any case of letters) rewritten to
  \<^verbatim>\<open>.js\<close> or \<^verbatim>\<open>.d.ts\<close>. The \<^verbatim>\<open>"."\<close> entry of \<^verbatim>\<open>exports\<close> is merged, not replaced:
  it is the object of the defaults \<^verbatim>\<open>import\<close> (the \<^verbatim>\<open>./esm\<close> path), \<^verbatim>\<open>require\<close> (the
  \<^verbatim>\<open>./cjs\<close> path) and \<^verbatim>\<open>types\<close> (the manifest's \<^verbatim>\<open>types\<close>), overridden key by key by
  the entries of the template's \<^verbatim>\<open>exports["."]\<close>.
\<close>

theorem C5_entry_point_fields:
  assumes "entryPoints (transformOutput env) = first # rest"
  shows "\<exists>obj dot.
     packageJsonObj env = Inr obj \<and>
     getProp (JObject obj) ''main'' =
       (if getProp (JObject (options_package env)) ''main'' \<in> {JUndefined, JNull}
        then JString (''./cjs/'' @ replaceTs True ''.js'' first)
        else getProp (JObject (options_package env)) ''main'') \<and>
     getProp (JObject obj) ''module'' =
       (if getProp (JObject (options_package env)) ''module'' \<in> {JUndefined, JNull}
        then JString (''./esm/'' @ replaceTs True ''.js'' first)
        else getProp (JObject (options_package env)) ''module'') \<and>
     getProp (JObject obj) ''types'' =
       (if getProp (JObject (options_package env)) ''types'' \<in> {JUndefined, JNull}
        then JString (''./types/'' @ replaceTs True ''.d.ts'' first)
        else getProp (JObject (options_package env)) ''types'') \<and>
     getProp (getProp (JObject obj) ''exports'') ''.'' = JObject dot \<and>
     entriesMap dot =
       [''import'' \<mapsto> JString (''./esm/'' @ replaceTs True ''.js'' first),
        ''require'' \<mapsto> JString (''./cjs/'' @ replaceTs True ''.js'' first),
        ''types'' \<mapsto> getProp (JObject obj) ''types''] ++
       entriesMap
         (ownEntries
            (coalesce (getProp (getProp (JObject (options_package env)) ''exports'') ''.'')
               (JObject [])))"
proof -
  from packageJsonObj_fields[OF assms] obtain obj where o:
    "packageJsonObj env = Inr obj"
    "getProp (JObject obj) ''module'' =
       coalesce (getProp (JObject (options_package env)) ''module'')
         (JString (''./esm/'' @ replaceTs True ''.js'' first))"
    "getProp (JObject obj) ''main'' =
       coalesce (getProp (JObject (options_package env)) ''main'')
         (JString (''./cjs/'' @ replaceTs True ''.js'' first))"
    "getProp (JObject obj) ''types'' =
       coalesce (getProp (JObject (options_package env)) ''types'')
         (JString (''./types/'' @ replaceTs True ''.d.ts'' first))"
    "getProp (JObject obj) ''exports'' =
       JObject (exportsObject (options_package env) (replaceTs True ''.js'' first)
         (replaceTs True ''.d.ts'' first))"
    by blast
  let ?dot = "dotExport (options_package env) (replaceTs True ''.js'' first)
         (replaceTs True ''.d.ts'' first)"
  have d: "getProp (getProp (JObject obj) ''exports'') ''.'' = JObject ?dot"
    unfolding o(5) by (rule getProp_exportsObject_dot)
  have m: "entriesMap ?dot =
       [''import'' \<mapsto> JString (''./esm/'' @ replaceTs True ''.js'' first),
        ''require'' \<mapsto> JString (''./cjs/'' @ replaceTs True ''.js'' first),
        ''types'' \<mapsto> getProp (JObject obj) ''types''] ++
       entriesMap
         (ownEntries
            (coalesce (getProp (getProp (JObject (options_package env)) ''exports'') ''.'')
               (JObject [])))"
    unfolding o(4) by (rule entriesMap_dotExport)
  show ?thesis
    using o(1) o(2) o(3) o(4) d m
    by (intro exI[of _ obj] exI[of _ ?dot]) (simp add: coalesce_def del: getProp.simps)
qed


theorem C5_user_main_witness:
  "entryPoints (transformOutput
     (plainEnv\<lparr>options_package := [(''name'', JString ''pkg''), (''main'', JString ''./index.js'')]\<rparr>))
     = ''mod.ts'' # [] \<and>
   map_sum id
     (\<lambda>obj. (getProp (JObject obj) ''main'', getProp (JObject obj) ''module'',
             getProp (JObject obj) ''types'', getProp (getProp (JObject obj) ''exports'') ''.''))
     (packageJsonObj
       (plainEnv\<lparr>options_package := [(''name'', JString ''pkg''), (''main'', JString ''./index.js'')]\<rparr>)) =
     Inr (JString ''./index.js'', JString ''./esm/mod.js'', JString ''./types/mod.d.ts'',
          JObject
            [(''import'', JString ''./esm/mod.js''),
             (''require'', JString ''./cjs/mod.js''),
             (''types'', JString ''./types/mod.d.ts'')]) \<and>
   (\<exists>obj dot.
      packageJsonObj
        (plainEnv\<lparr>options_package := [(''name'', JString ''pkg''), (''main'', JString ''./index.js'')]\<rparr>)
        = Inr obj \<and>
      getProp (JObject obj) ''main'' = JString ''./index.js'' \<and>
      getProp (getProp (JObject obj) ''exports'') ''.'' = JObject dot \<and>
      entriesMap dot ''require'' = Some (JString ''./cjs/mod.js''))"
proof -
  let ?env = "plainEnv\<lparr>options_package := [(''name'', JString ''pkg''), (''main'', JString ''./index.js'')]\<rparr>"
  have h: "entryPoints (transformOutput ?env) = ''mod.ts'' # []"
    by (simp add: plainEnv_def)
  have c: "map_sum id
     (\<lambda>obj. (getProp (JObject obj) ''main'', getProp (JObject obj) ''module'',
             getProp (JObject obj) ''types'', getProp (getProp (JObject obj) ''exports'') ''.''))
     (packageJsonObj ?env) =
     Inr (JString ''./index.js'', JString ''./esm/mod.js'', JString ''./types/mod.d.ts'',
          JObject
            [(''import'', JString ''./esm/mod.js''),
             (''require'', JString ''./cjs/mod.js''),
             (''types'', JString ''./types/mod.d.ts'')])"
    by code_simp
  have m: "getProp (JObject (options_package ?env)) ''main'' = JString ''./index.js''"
    by code_simp
  have r: "replaceTs True ''.js'' ''mod.ts'' = ''mod'' @ ''.js''"
    by code_simp
  have e: "getProp (getProp (JObject (options_package ?env)) ''exports'') ''.'' = JUndefined"
    by code_simp
  from C5_entry_point_fields[OF h] obtain obj dot where o:
    "packageJsonObj ?env = Inr obj"
    "getProp (JObject obj) ''main'' =
       (if getProp (JObject (options_package ?env)) ''main'' \<in> {JUndefined, JNull}
        then JString (''./cjs/'' @ replaceTs True ''.js'' ''mod.ts'')
        else getProp (JObject (options_package ?env)) ''main'')"
    "getProp (getProp (JObject obj) ''exports'') ''.'' = JObject dot"
    "entriesMap dot =
       [''import'' \<mapsto> JString (''./esm/'' @ replaceTs True ''.js'' ''mod.ts''),
        ''require'' \<mapsto> JString (''./cjs/'' @ replaceTs True ''.js'' ''mod.ts''),
        ''types'' \<mapsto> getProp (JObject obj) ''types''] ++
       entriesMap
         (ownEntries
            (coalesce (getProp (getProp (JObject (options_package ?env)) ''exports'') ''.'')
               (JObject [])))"
    by blast
  from o(2) have main: "getProp (JObject obj) ''main'' = JString ''./index.js''"
    unfolding m by simp
  from o(4) have req: "entriesMap dot ''require'' = Some (JString ''./cjs/mod.js'')"
    unfolding e r by (simp add: coalesce_def entriesMap_Nil)
  from h c o(1) main o(3) req show ?thesis
    by blast
qed

text \<open>
  Claim C6, as stated, for a build with tests whose distributed code uses the shim
  and whose template declares \<^verbatim>\<open>devDependencies: { "deno.ns": "0.5.0" }\<close>: the shim
  package \<^verbatim>\<open>deno.ns\<close> is a key of the computed \<^verbatim>\<open>dependencies\<close> and a key of the
  manifest's \<^verbatim>\<open>devDependencies\<close>, where the template's entry put it.
\<close>

theorem C6_user_devDependencies_repeat_shim:
  "testOutput
     (plainEnv\<lparr>testOutput := Some \<lparr>entryPoints = [''mod_test.ts''], shimUsed = True, dependencies = []\<rparr>,
        options_package :=
          [(''name'', JString ''pkg''),
           (''devDependencies'', JObject [(''deno.ns'', JString ''0.5.0'')])]\<rparr>) \<noteq> None \<and>
   shimPackage_name (shimPackage plainEnv) = ''deno.ns'' \<and>
   map_sum id (\<lambda>obj. (getProp (JObject obj) ''dependencies'', getProp (JObject obj) ''devDependencies''))
     (packageJsonObj
       (plainEnv\<lparr>testOutput := Some \<lparr>entryPoints = [''mod_test.ts''], shimUsed = True, dependencies = []\<rparr>,
          options_package :=
            [(''name'', JString ''pkg''),
             (''devDependencies'', JObject [(''deno.ns'', JString ''0.5.0'')])]\<rparr>)) =
     Inr (JObject [(''deno.ns'', JString ''0.5.0'')], JObject [(''deno.ns'', JString ''0.5.0'')])"
  by code_simp

text \<open>
  Claim C6, amended. For every build input with tests, the keys of the manifest's
  \<^verbatim>\<open>devDependencies\<close> are the names of the test output's dependencies, the shim
  package name when the test code used the shim and the name is not a key of the
  computed \<^verbatim>\<open>dependencies\<close>, and the keys of the template's \<^verbatim>\<open>devDependencies\<close>. So
  when the shim package name is already a key of the computed \<^verbatim>\<open>dependencies\<close>,
  \<^verbatim>\<open>devDependencies\<close> contains it only if the test output's dependencies or the
  template's \<^verbatim>\<open>devDependencies\<close> name it: the build itself never adds it.
\<close>

theorem C6_shim_entry_not_repeated:
  assumes "testOutput env = Some t"
  shows "\<exists>dev.
     devDependenciesValue env = JObject dev \<and>
     (case packageJsonObj env of
        Inl e \<Rightarrow> entryPoints (transformOutput env) = []
      | Inr obj \<Rightarrow> getProp (JObject obj) ''devDependencies'' = JObject dev) \<and>
     fst ` set dev =
       dependency_name ` set (dependencies t) \<union>
       (if shimUsed t \<and> shimPackage_name (shimPackage env) \<notin> fst ` set (dependenciesObject env)
        then {shimPackage_name (shimPackage env)} else {}) \<union>
       fst ` set (ownEntries
         (coalesce (getProp (JObject (options_package env)) ''devDependencies'') (JObject []))) \<and>
     (shimPackage_name (shimPackage env) \<in> fst ` set (dependenciesObject env) \<longrightarrow>
      shimPackage_name (shimPackage env) \<notin> dependency_name ` set (dependencies t) \<longrightarrow>
      shimPackage_name (shimPackage env) \<notin> fst ` set (ownEntries
         (coalesce (getProp (JObject (options_package env)) ''devDependencies'') (JObject []))) \<longrightarrow>
      shimPackage_name (shimPackage env) \<notin> fst ` set dev)"
proof -
  from devDependenciesValue_Some[OF assms] obtain dev where d:
    "devDependenciesValue env = JObject dev"
    "fst ` set dev =
       dependency_name ` set (dependencies t) \<union>
       (if shimUsed t \<and> shimPackage_name (shimPackage env) \<notin> fst ` set (dependenciesObject env)
        then {shimPackage_name (shimPackage env)} else {}) \<union>
       fst ` set (ownEntries
         (coalesce (getProp (JObject (options_package env)) ''devDependencies'') (JObject [])))"
    by blast
  have p: "case packageJsonObj env of
        Inl e \<Rightarrow> entryPoints (transformOutput env) = []
      | Inr obj \<Rightarrow> getProp (JObject obj) ''devDependencies'' = JObject dev"
  proof (cases "entryPoints (transformOutput env)")
    case Nil
    then show ?thesis by (simp add: packageJsonObj_def)
  next
    case (Cons first rest)
    from packageJsonObj_fields[OF Cons] d(1) show ?thesis by auto
  qed
  from d(2) have n:
    "shimPackage_name (shimPackage env) \<in> fst ` set (dependenciesObject env) \<longrightarrow>
      shimPackage_name (shimPackage env) \<notin> dependency_name ` set (dependencies t) \<longrightarrow>
      shimPackage_name (shimPackage env) \<notin> fst ` set (ownEntries
         (coalesce (getProp (JObject (options_package env)) ''devDependencies'') (JObject []))) \<longrightarrow>
      shimPackage_name (shimPackage env) \<notin> fst ` set dev"
    by simp
  from d p n show ?thesis
    by (intro exI[of _ dev]) blast
qed

theorem C6_shim_in_dependencies_witness:
  "testOutput
     (plainEnv\<lparr>testOutput := Some \<lparr>entryPoints = [''mod_test.ts''], shimUsed = True, dependencies = []\<rparr>\<rparr>)
     = Some \<lparr>entryPoints = [''mod_test.ts''], shimUsed = True, dependencies = []\<rparr> \<and>
   map_sum id (\<lambda>obj. (getProp (JObject obj) ''dependencies'', getProp (JObject obj) ''devDependencies''))
     (packageJsonObj
       (plainEnv\<lparr>testOutput := Some \<lparr>entryPoints = [''mod_test.ts''], shimUsed = True, dependencies = []\<rparr>\<rparr>)) =
     Inr (JObject [(''deno.ns'', JString ''0.5.0'')], JObject []) \<and>
   (\<exists>dev.
      devDependenciesValue
        (plainEnv\<lparr>testOutput := Some \<lparr>entryPoints = [''mod_test.ts''], shimUsed = True, dependencies = []\<rparr>\<rparr>)
        = JObject dev \<and>
      ''deno.ns'' \<notin> fst ` set dev)"
proof -
  let ?t = "\<lparr>entryPoints = [''mod_test.ts''], shimUsed = True, dependencies = []\<rparr>"
  let ?env = "plainEnv\<lparr>testOutput := Some ?t\<rparr>"
  have h: "testOutput ?env = Some ?t"
    by simp
  have c: "map_sum id (\<lambda>obj. (getProp (JObject obj) ''dependencies'', getProp (JObject obj) ''devDependencies''))
     (packageJsonObj ?env) = Inr (JObject [(''deno.ns'', JString ''0.5.0'')], JObject [])"
    by code_simp
  have n: "shimPackage_name (shimPackage ?env) = ''deno.ns''"
    by code_simp
  have k: "dependenciesObject ?env = [(''deno.ns'', JString ''0.5.0'')]"
    by code_simp
  have u: "ownEntries (coalesce (getProp (JObject (options_package ?env)) ''devDependencies'') (JObject [])) = []"
    by code_simp
  from C6_shim_entry_not_repeated[OF h] obtain dev where d:
    "devDependenciesValue ?env = JObject dev"
    "shimPackage_name (shimPackage ?env) \<in> fst ` set (dependenciesObject ?env) \<longrightarrow>
      shimPackage_name (shimPackage ?env) \<notin> dependency_name ` set (dependencies ?t) \<longrightarrow>
      shimPackage_name (shimPackage ?env) \<notin> fst ` set (ownEntries
         (coalesce (getProp (JObject (options_package ?env)) ''devDependencies'') (JObject []))) \<longrightarrow>
      shimPackage_name (shimPackage ?env) \<notin> fst ` set dev"
    by blast
  from d(2) have "''deno.ns'' \<notin> fst ` set dev"
    unfolding n k u by simp
  with h c d(1) show ?thesis
    by blast
qed

text \<open>
  Claim C8. Generating the manifest is a function of its inputs alone. Whatever the
  state of the file sink (the directories created and the files written so far), a
  call with the same transform output, test output and configuration fails alike or
  adds the same single write, of the same text to the same path; in particular two
  calls in a row write the same text twice.
\<close>

theorem C8_manifest_text_depends_on_inputs_only:
  "map_sum id (\<lambda>s. drop (length (writeCalls sink1)) (writeCalls s)) (createPackageJson env sink1) =
   map_sum id (\<lambda>s. drop (length (writeCalls sink2)) (writeCalls s)) (createPackageJson env sink2) \<and>
   (case createPackageJson env sink1 of
      Inl e \<Rightarrow> entryPoints (transformOutput env) = []
    | Inr s1 \<Rightarrow>
        (case createPackageJson env s1 of
           Inl e \<Rightarrow> False
         | Inr s2 \<Rightarrow>
             (\<exists>path text.
                writeCalls s1 = writeCalls sink1 @ [(path, text)] \<and>
                writeCalls s2 = writeCalls sink1 @ [(path, text), (path, text)])))"
proof
  show "map_sum id (\<lambda>s. drop (length (writeCalls sink1)) (writeCalls s)) (createPackageJson env sink1) =
   map_sum id (\<lambda>s. drop (length (writeCalls sink2)) (writeCalls s)) (createPackageJson env sink2)"
    by (simp only: createPackageJson_writes)
next
  show "case createPackageJson env sink1 of
      Inl e \<Rightarrow> entryPoints (transformOutput env) = []
    | Inr s1 \<Rightarrow>
        (case createPackageJson env s1 of
           Inl e \<Rightarrow> False
         | Inr s2 \<Rightarrow>
             (\<exists>path text.
                writeCalls s1 = writeCalls sink1 @ [(path, text)] \<and>
                writeCalls s2 = writeCalls sink1 @ [(path, text), (path, text)]))"
  proof (cases "entryPoints (transformOutput env)")
    case Nil
    then show ?thesis by (simp add: createPackageJson_def packageJsonObj_def)
  next
    case (Cons first rest)
    from packageJsonObj_fields[OF Cons] obtain obj where "packageJsonObj env = Inr obj"
      by blast
    then show ?thesis
      by (simp add: createPackageJson_def writeFile_def Let_def)
  qed
qed


end
